theory Spec2Isabelle
  imports Complex_Main
begin

section \<open>Least-squares Monte Carlo pricing of an American put (AmOption.ipynb)\<close>

text \<open>
  The notebook computes with numpy arrays of IEEE doubles. The embedding idealises a
  double as a \<^typ>\<open>real\<close>: rounding, overflow and NaN are outside the model, and every
  statement below is a statement about the exact-arithmetic reading of the code.

  A two-dimensional array is the list of its columns: \<open>A[:, j]\<close> is \<open>A ! j\<close>, the number
  of columns is \<open>length A\<close> and \<open>A[:, j:]\<close> is \<open>drop j A\<close>. All columns of an array have
  the same length (the number of rows), which theorems assume of the caller's array where
  they need it.
\<close>

subsection \<open>Errors and the error monad\<close>

text \<open>
  \<open>IndexError\<close> and \<open>ValueError\<close> are numpy's and pandas' shape failures,
  \<open>ZeroDivisionError\<close> is Python's division by zero in \<open>getDt\<close>, and
  \<open>RegressionError\<close> stands for any exception that leaves \<open>sm.OLS(...).fit()\<close> or the
  lookup of one of the three coefficients in \<open>params\<close>.
\<close>

datatype error = IndexError | ValueError | ZeroDivisionError | RegressionError

definition ebind :: "error + 'a \<Rightarrow> ('a \<Rightarrow> error + 'b) \<Rightarrow> error + 'b" where
  "ebind m f = (case m of Inl e \<Rightarrow> Inl e | Inr x \<Rightarrow> f x)"

type_synonym vector = "real list"
type_synonym matrix = "real list list"

subsection \<open>The parameter objects\<close>

record Stock =
  s0 :: real
  sigma :: real
  r :: real

record Option =
  timeToExpiry :: real
  nSteps :: nat
  strike :: real

record BSModel =
  stockObj :: Stock
  opnObj :: Option
  numberOfPaths :: nat
  nSteps :: nat

record EurOption =
  stockObj :: Stock
  optionObj :: Option

record AmOption =
  stockObj :: Stock
  optionObj :: Option
  modelObj :: BSModel

subsection \<open>numpy column access\<close>

definition get_col :: "matrix \<Rightarrow> nat \<Rightarrow> error + vector" where
  "get_col A j = (if j < length A then Inr (A ! j) else Inl IndexError)"

text \<open>\<open>A[:, -1]\<close>: the last column, an IndexError when the array has no column.\<close>

definition last_col :: "matrix \<Rightarrow> error + vector" where
  "last_col A = (if A = [] then Inl IndexError else Inr (last A))"

text \<open>
  \<open>A[:, j] = v\<close>: the index is checked, then \<open>v\<close> is broadcast to the column: a vector of
  the column's length is stored as it is, a vector of length one is repeated, any other
  length is a ValueError.
\<close>

definition set_col :: "matrix \<Rightarrow> nat \<Rightarrow> vector \<Rightarrow> error + matrix" where
  "set_col A j v =
     (if \<not> j < length A then Inl IndexError
      else if length v = length (A ! j) then Inr (A[j := v])
      else if length v = 1 then Inr (A[j := replicate (length (A ! j)) (hd v)])
      else Inl ValueError)"

definition set_last_col :: "matrix \<Rightarrow> vector \<Rightarrow> error + matrix" where
  "set_last_col A v = (if A = [] then Inl IndexError else set_col A (length A - 1) v)"

text \<open>Two vectors combined elementwise, with numpy's broadcasting of a length-one operand.\<close>

definition broadcast2 :: "'a list \<Rightarrow> 'b list \<Rightarrow> error + ('a \<times> 'b) list" where
  "broadcast2 a b =
     (if length a = length b then Inr (zip a b)
      else if length a = 1 then Inr (zip (replicate (length b) (hd a)) b)
      else if length b = 1 then Inr (zip a (replicate (length a) (hd b)))
      else Inl ValueError)"

text \<open>\<open>np.where(v > 0, 1, 0)\<close>.\<close>

definition where_positive :: "vector \<Rightarrow> vector" where
  "where_positive v = map (\<lambda>x. if x > 0 then 1 else 0) v"

text \<open>\<open>A[condition, j:] = 0\<close>: the boolean mask must have one entry per row.\<close>

definition zero_rows_from :: "bool list \<Rightarrow> nat \<Rightarrow> matrix \<Rightarrow> error + matrix" where
  "zero_rows_from condition j A =
     (if A \<noteq> [] \<and> length condition \<noteq> length (hd A) then Inl IndexError
      else Inr (take j A @ map (\<lambda>c. map2 (\<lambda>b x. if b then 0 else x) condition c) (drop j A)))"

text \<open>
  \<open>np.sum(A * B * dfs, axis = 1)\<close> for \<open>A\<close>, \<open>B\<close> of one shape and one factor per column,
  which is what the caller passes at every step. (numpy would also reconcile a single column
  or a single factor with the other operands by broadcasting; \<open>regressionFunction\<close> below
  rejects every shape other than the exact one, and the loop never produces another.)
\<close>

definition times_cols :: "matrix \<Rightarrow> matrix \<Rightarrow> vector \<Rightarrow> matrix" where
  "times_cols A B dfs =
     map2 (\<lambda>(a, b) d. map2 (\<lambda>x y. x * y * d) a b) (zip A B) dfs"

definition same_shape :: "matrix \<Rightarrow> matrix \<Rightarrow> bool" where
  "same_shape A B = list_all2 (\<lambda>a b. length a = length b) A B"

definition sum_axis1 :: "matrix \<Rightarrow> vector" where
  "sum_axis1 A = (case A of [] \<Rightarrow> [] | c # cs \<Rightarrow> foldr (map2 (+)) A (replicate (length c) 0))"

text \<open>\<open>np.sum(A)\<close>: the sum of all entries.\<close>

definition sum_all :: "matrix \<Rightarrow> real" where
  "sum_all A = sum_list (map sum_list A)"

subsection \<open>The regression library\<close>

text \<open>
  \<open>statsmodels\<close> is not part of the repository. The model takes it as a parameter: a
  \<open>fitter\<close> maps the dependent values \<open>y\<close> and the design rows \<open>(X, X_Squared)\<close> to what
  \<open>sm.OLS(y, sm.add_constant(X)).fit().params\<close> holds under the keys \<open>const\<close>, \<open>X\<close> and
  \<open>X_Squared\<close>, or to the error when the library raises or a key is missing.
\<close>

record params =
  coef_const :: real
  coef_X :: real
  coef_X_Squared :: real

type_synonym fitter = "vector \<Rightarrow> (real \<times> real) list \<Rightarrow> error + params"

text \<open>A row of the DataFrame \<open>regression\<close>: the columns \<open>Y\<close>, \<open>X\<close> and \<open>X_Squared\<close>.\<close>

record regression_row =
  col_Y :: real
  col_X :: real
  col_X_Squared :: real

subsection \<open>class AmOption\<close>

definition payOff :: "AmOption \<Rightarrow> vector \<Rightarrow> vector" where
  "payOff am pathCrossSection =
     map (\<lambda>x. max (strike (AmOption.optionObj am) - x) 0) pathCrossSection"

definition getDt :: "AmOption \<Rightarrow> error + real" where
  "getDt am =
     (if Option.nSteps (AmOption.optionObj am) = 0 then Inl ZeroDivisionError
      else Inr (timeToExpiry (AmOption.optionObj am)
                / real (Option.nSteps (AmOption.optionObj am))))"

definition regressionFunction ::
  "fitter \<Rightarrow> AmOption \<Rightarrow> matrix \<Rightarrow> matrix \<Rightarrow> matrix \<Rightarrow> vector
     \<Rightarrow> error + (params \<times> regression_row list)" where
  "regressionFunction fit am pathCrossSectionPayOff pathCrossSectionTminus1 exerciseD dfs =
     ebind (getDt am) (\<lambda>dt.
     if \<not> same_shape pathCrossSectionPayOff exerciseD \<or> length dfs \<noteq> length exerciseD
     then Inl ValueError
     else
     let Y = sum_axis1 (times_cols pathCrossSectionPayOff exerciseD dfs) in
     ebind (get_col pathCrossSectionTminus1 0) (\<lambda>X.
     if length X \<noteq> length Y then Inl ValueError
     else
       let regression = filter (\<lambda>(y, x). x < strike (AmOption.optionObj am)) (zip Y X);
           regression = map (\<lambda>(y, x). \<lparr>col_Y = y, col_X = x, col_X_Squared = x ^ 2\<rparr>) regression
       in ebind (fit (map col_Y regression)
                     (map (\<lambda>row. (col_X row, col_X_Squared row)) regression))
            (\<lambda>model. Inr (model, regression))))"

definition getContinuationValue :: "params \<Rightarrow> vector \<Rightarrow> vector \<Rightarrow> vector" where
  "getContinuationValue regFunc pathCrossSectionTminus1 immediatePayoff =
     (let intercept = coef_const regFunc;
          coefficient_X = coef_X regFunc;
          coefficient_X_squared = coef_X_Squared regFunc
      in map (\<lambda>x. intercept + coefficient_X * x + coefficient_X_squared * x ^ 2)
           pathCrossSectionTminus1)"

text \<open>
  The arrays that \<open>priceAmByLSMC\<close> reads and writes. \<open>samplePaths\<close> is the caller's array;
  the others are created by the function.
\<close>

record store =
  samplePaths :: matrix
  payoffMatrix :: matrix
  exerciseDecisionMatrix :: matrix
  discountFactors :: vector
  results_dict :: "(nat \<times> params) list"

text \<open>The statements before the loop.\<close>

definition lsm_init :: "AmOption \<Rightarrow> matrix \<Rightarrow> error + store" where
  "lsm_init am sp =
     (let N = numberOfPaths (modelObj am);
          M = BSModel.nSteps (modelObj am);
          exerciseDecisionMatrix0 = replicate M (replicate N 0);
          payoffMatrix0 = replicate M (replicate N 0)
      in ebind (last_col sp) (\<lambda>c.
         ebind (set_last_col payoffMatrix0 (payOff am c)) (\<lambda>pm.
         ebind (last_col pm) (\<lambda>pc.
         ebind (set_last_col exerciseDecisionMatrix0 (where_positive pc)) (\<lambda>ex.
         Inr \<lparr>samplePaths = sp, payoffMatrix = pm, exerciseDecisionMatrix = ex,
              discountFactors = [], results_dict = []\<rparr>)))))"

text \<open>The body of the backward loop at time index \<open>t\<close>.\<close>

definition lsm_step :: "fitter \<Rightarrow> AmOption \<Rightarrow> real \<Rightarrow> nat \<Rightarrow> store \<Rightarrow> error + store" where
  "lsm_step fit am dt t s =
     ebind (get_col (samplePaths s) (t + 1)) (\<lambda>c.
     ebind (set_col (payoffMatrix s) t (payOff am c)) (\<lambda>pm1.
     ebind (get_col pm1 t) (\<lambda>p1.
     ebind (set_col (exerciseDecisionMatrix s) t (where_positive p1)) (\<lambda>ex1.
     let discountFactor =
           exp (- r (BSModel.stockObj (modelObj am)) * dt
                  * real (BSModel.nSteps (modelObj am) - t - 1));
         dfs = discountFactors s @ [discountFactor]
     in
     ebind (regressionFunction fit am (drop (t + 1) pm1) (drop (t + 1) (samplePaths s))
              (drop (t + 1) ex1) dfs) (\<lambda>(regFunction, regDF).
     let contValue = getContinuationValue regFunction c p1 in
     ebind (broadcast2 p1 contValue) (\<lambda>pairs.
     let condition = map (\<lambda>(p, cv). p > cv \<and> p > 0) pairs in
     ebind (broadcast2 condition p1) (\<lambda>cps.
     ebind (set_col pm1 t (map (\<lambda>(b, p). if b then p else 0) cps)) (\<lambda>pm2.
     ebind (set_col ex1 t (map (\<lambda>b. if b then 1 else 0) condition)) (\<lambda>ex2.
     ebind (zero_rows_from condition (t + 1) pm2) (\<lambda>pm3.
     ebind (zero_rows_from condition (t + 1) ex2) (\<lambda>ex3.
     Inr (s\<lparr>payoffMatrix := pm3, exerciseDecisionMatrix := ex3, discountFactors := dfs,
            results_dict := results_dict s @ [(t, regFunction)]\<rparr>))))))))))))"

text \<open>\<open>for t in range(nSteps - 2, -1, -1)\<close>: the time indices in the order they are visited.\<close>

definition backward_range :: "nat \<Rightarrow> nat list" where
  "backward_range M = rev [0..<M - 1]"

fun lsm_loop :: "fitter \<Rightarrow> AmOption \<Rightarrow> real \<Rightarrow> nat list \<Rightarrow> store \<Rightarrow> error + store" where
  "lsm_loop fit am dt [] s = Inr s"
| "lsm_loop fit am dt (t # ts) s = ebind (lsm_step fit am dt t s) (lsm_loop fit am dt ts)"

text \<open>The discounting loop \<open>for i in range(0, self.optionObj.nSteps)\<close>.\<close>

definition discount_col :: "AmOption \<Rightarrow> real \<Rightarrow> nat \<Rightarrow> store \<Rightarrow> error + store" where
  "discount_col am dt i s =
     ebind (get_col (payoffMatrix s) i) (\<lambda>c.
     ebind (set_col (payoffMatrix s) i
              (map (\<lambda>x. x * exp (- r (AmOption.stockObj am) * dt * real (i + 1))) c)) (\<lambda>pm.
     Inr (s\<lparr>payoffMatrix := pm\<rparr>)))"

fun discount_loop :: "AmOption \<Rightarrow> real \<Rightarrow> nat list \<Rightarrow> store \<Rightarrow> error + store" where
  "discount_loop am dt [] s = Inr s"
| "discount_loop am dt (i # is) s = ebind (discount_col am dt i s) (discount_loop am dt is)"

text \<open>
  The whole of \<open>priceAmByLSMC\<close>, returning the final store, and the function itself, which
  returns \<open>V\<close>, the two matrices and the coefficient log. The last line divides a numpy
  float by \<open>numberOfPaths\<close>; for zero paths numpy yields NaN where HOL yields \<open>0\<close>, so
  statements about \<open>V\<close> assume at least one path.
\<close>

definition lsm_run :: "fitter \<Rightarrow> AmOption \<Rightarrow> matrix \<Rightarrow> real \<Rightarrow> error + store" where
  "lsm_run fit am sp dt =
     ebind (lsm_init am sp) (\<lambda>st0.
     ebind (lsm_loop fit am dt (backward_range (BSModel.nSteps (modelObj am))) st0) (\<lambda>st1.
     discount_loop am dt [0..<Option.nSteps (AmOption.optionObj am)] st1))"

definition priceAmByLSMC ::
  "fitter \<Rightarrow> AmOption \<Rightarrow> matrix \<Rightarrow> real
     \<Rightarrow> error + (real \<times> matrix \<times> matrix \<times> (nat \<times> params) list)" where
  "priceAmByLSMC fit am sp dt =
     ebind (lsm_run fit am sp dt) (\<lambda>s.
     let V = sum_all (payoffMatrix s) / real (numberOfPaths (modelObj am))
     in Inr (V, payoffMatrix s, exerciseDecisionMatrix s, results_dict s))"

subsection \<open>class EurOption\<close>

text \<open>
  \<open>priceByBSMC\<close>: the payoff of the last column for a call or a put (any other option type
  is a ValueError), discounted over the time to expiry, and \<open>np.mean\<close> of it. The mean of no
  entries is NaN in numpy and \<open>0\<close> here, so statements about it assume at least one path.
\<close>

definition priceByBSMC :: "EurOption \<Rightarrow> matrix \<Rightarrow> string \<Rightarrow> error + real" where
  "priceByBSMC eur sp optionType =
     ebind (if optionType = ''call''
            then ebind (last_col sp) (\<lambda>c.
                   Inr (map (\<lambda>x. max (x - strike (EurOption.optionObj eur)) 0) c))
            else if optionType = ''put''
            then ebind (last_col sp) (\<lambda>c.
                   Inr (map (\<lambda>x. max (strike (EurOption.optionObj eur) - x) 0) c))
            else Inl ValueError) (\<lambda>payoff.
     let payoff = map (\<lambda>x. x * exp (- r (EurOption.stockObj eur)
                                       * timeToExpiry (EurOption.optionObj eur))) payoff
     in Inr (sum_list payoff / real (length payoff)))"

subsection \<open>A reference least-squares solver\<close>

text \<open>
  Modelled from the library's documented contract, not from code of the repository:
  ordinary least squares of \<open>y\<close> on the design columns \<open>1\<close>, \<open>X\<close>, \<open>X_Squared\<close>, solved
  through the normal equations by Cramer's rule. When the design has full column rank the
  least-squares coefficients are unique and these are the ones; for a rank-deficient
  design (the Gram determinant is zero, as it is whenever fewer than three rows enter)
  this solver raises, and what statsmodels returns there is not modelled.
\<close>

definition det3 ::
  "real \<Rightarrow> real \<Rightarrow> real \<Rightarrow> real \<Rightarrow> real \<Rightarrow> real \<Rightarrow> real \<Rightarrow> real \<Rightarrow> real \<Rightarrow> real" where
  "det3 a b c d e f g h i = a * (e * i - f * h) - b * (d * i - f * g) + c * (d * h - e * g)"

definition dot :: "vector \<Rightarrow> vector \<Rightarrow> real" where
  "dot a b = sum_list (map2 (*) a b)"

definition ols_fit :: fitter where
  "ols_fit y X =
     (let n = real (length X);
          u = map fst X;
          v = map snd X;
          Su = sum_list u; Sv = sum_list v;
          Suu = dot u u; Suv = dot u v; Svv = dot v v;
          Sy = sum_list y; Suy = dot u y; Svy = dot v y;
          D = det3 n Su Sv Su Suu Suv Sv Suv Svv
      in if length y \<noteq> length X \<or> D = 0 then Inl RegressionError
         else Inr \<lparr>coef_const = det3 Sy Su Sv Suy Suu Suv Svy Suv Svv / D,
                   coef_X = det3 n Sy Sv Su Suy Suv Sv Svy Svv / D,
                   coef_X_Squared = det3 n Su Sy Su Suu Suy Sv Suv Svy / D\<rparr>)"

section \<open>Notions used by the statements\<close>

subsection \<open>Shapes\<close>

text \<open>\<open>has_shape N M A\<close>: the array \<open>A\<close> has \<open>N\<close> rows and \<open>M\<close> columns.\<close>

definition has_shape :: "nat \<Rightarrow> nat \<Rightarrow> matrix \<Rightarrow> bool" where
  "has_shape N M A = (length A = M \<and> list_all (\<lambda>c. length c = N) A)"

subsection \<open>The loop body in closed form\<close>

text \<open>
  The boolean vector \<open>condition\<close> of the loop body, written for the price column \<open>c\<close>:
  the intrinsic payoff exceeds the fitted continuation value and is positive.
\<close>

definition exercise_condition :: "AmOption \<Rightarrow> params \<Rightarrow> vector \<Rightarrow> bool list" where
  "exercise_condition am regFunc c =
     map (\<lambda>x. max (strike (AmOption.optionObj am) - x) 0
                > coef_const regFunc + coef_X regFunc * x + coef_X_Squared regFunc * x ^ 2
              \<and> max (strike (AmOption.optionObj am) - x) 0 > 0) c"

text \<open>The discount factor appended at time index \<open>t\<close>.\<close>

definition step_discount :: "AmOption \<Rightarrow> real \<Rightarrow> nat \<Rightarrow> real" where
  "step_discount am dt t =
     exp (- r (BSModel.stockObj (modelObj am)) * dt * real (BSModel.nSteps (modelObj am) - t - 1))"

text \<open>
  What the four assignments after \<open>condition\<close> leave in a matrix: the columns before \<open>t\<close>
  as they were, column \<open>t\<close> holding \<open>col\<close> where the condition holds and zero elsewhere,
  and the later columns zeroed in the rows where the condition holds.
\<close>

definition decided :: "nat \<Rightarrow> bool list \<Rightarrow> vector \<Rightarrow> matrix \<Rightarrow> matrix" where
  "decided t condition col A =
     take t A @ [map2 (\<lambda>b x. if b then x else 0) condition col]
       @ map (\<lambda>c. map2 (\<lambda>b x. if b then 0 else x) condition c) (drop (Suc t) A)"

definition step_result :: "AmOption \<Rightarrow> real \<Rightarrow> nat \<Rightarrow> store \<Rightarrow> params \<Rightarrow> store" where
  "step_result am dt t s regFunction =
     (let c = samplePaths s ! Suc t;
          condition = exercise_condition am regFunction c
      in s\<lparr>payoffMatrix := decided t condition (payOff am c) (payoffMatrix s),
            exerciseDecisionMatrix :=
              decided t condition (replicate (length c) 1) (exerciseDecisionMatrix s),
            discountFactors := discountFactors s @ [step_discount am dt t],
            results_dict := results_dict s @ [(t, regFunction)]\<rparr>)"

subsection \<open>Exercise at most once\<close>

text \<open>The rows of an array, and the property that every row has at most one nonzero entry.\<close>

definition rows_of :: "matrix \<Rightarrow> vector list" where
  "rows_of A = (case A of [] \<Rightarrow> [] | c # cs \<Rightarrow> map (\<lambda>p. map (\<lambda>col. col ! p) A) [0..<length c])"

definition exercise_once :: "matrix \<Rightarrow> bool" where
  "exercise_once A = list_all (\<lambda>row. length (filter (\<lambda>x. x \<noteq> 0) row) \<le> 1) (rows_of A)"

text \<open>The same property by entries, and the facts the loop maintains besides it.\<close>

definition once :: "nat \<Rightarrow> nat \<Rightarrow> matrix \<Rightarrow> bool" where
  "once N M A = (\<forall>p<N. \<forall>i<M. \<forall>j<M. A ! i ! p \<noteq> 0 \<longrightarrow> A ! j ! p \<noteq> 0 \<longrightarrow> i = j)"

definition zero_before :: "nat \<Rightarrow> nat \<Rightarrow> matrix \<Rightarrow> bool" where
  "zero_before N t A = (\<forall>j<t. \<forall>p<N. A ! j ! p = 0)"

definition lsm_inv :: "nat \<Rightarrow> nat \<Rightarrow> nat \<Rightarrow> store \<Rightarrow> bool" where
  "lsm_inv N M k s =
     (has_shape N M (payoffMatrix s) \<and> has_shape N M (exerciseDecisionMatrix s)
      \<and> zero_before N k (payoffMatrix s) \<and> zero_before N k (exerciseDecisionMatrix s)
      \<and> once N M (payoffMatrix s) \<and> once N M (exerciseDecisionMatrix s))"

subsection \<open>The regression as the specification words it\<close>

text \<open>
  The specification's dependent variable for path \<open>p\<close>: the sum over the later steps \<open>s\<close> of
  \<open>payoff[p,s] * exerciseIndicator[p,s] * discountFactor[s]\<close>.
\<close>

definition spec_Y :: "matrix \<Rightarrow> matrix \<Rightarrow> vector \<Rightarrow> nat \<Rightarrow> real" where
  "spec_Y payoff exerciseIndicator discountFactor p =
     (\<Sum>s\<leftarrow>[0..<length discountFactor]. payoff ! s ! p * exerciseIndicator ! s ! p * discountFactor ! s)"

text \<open>The paths that enter the regression: those with \<open>X < strike\<close>.\<close>

definition in_the_money :: "AmOption \<Rightarrow> vector \<Rightarrow> nat list" where
  "in_the_money am X = filter (\<lambda>p. X ! p < strike (AmOption.optionObj am)) [0..<length X]"

text \<open>The regression rows of exactly these paths, and the fit over them.\<close>

definition spec_rows :: "AmOption \<Rightarrow> matrix \<Rightarrow> vector \<Rightarrow> matrix \<Rightarrow> vector \<Rightarrow> regression_row list" where
  "spec_rows am payoff X exerciseIndicator discountFactor =
     map (\<lambda>p. \<lparr>col_Y = spec_Y payoff exerciseIndicator discountFactor p, col_X = X ! p,
               col_X_Squared = (X ! p) ^ 2\<rparr>) (in_the_money am X)"

definition spec_regression ::
  "fitter \<Rightarrow> AmOption \<Rightarrow> matrix \<Rightarrow> vector \<Rightarrow> matrix \<Rightarrow> vector \<Rightarrow> error + (params \<times> regression_row list)" where
  "spec_regression fit am payoff X exerciseIndicator discountFactor =
     (let rows = spec_rows am payoff X exerciseIndicator discountFactor
      in ebind (fit (map col_Y rows) (map (\<lambda>row. (col_X row, col_X_Squared row)) rows))
           (\<lambda>model. Inr (model, rows)))"


subsection \<open>Finalisation\<close>

text \<open>The factor that the discounting loop applies to column \<open>i\<close>.\<close>

definition final_discount :: "AmOption \<Rightarrow> real \<Rightarrow> nat \<Rightarrow> real" where
  "final_discount am dt i = exp (- r (AmOption.stockObj am) * dt * real (i + 1))"

text \<open>The matrix after the first \<open>k\<close> iterations of the discounting loop.\<close>

definition discounted :: "AmOption \<Rightarrow> real \<Rightarrow> nat \<Rightarrow> matrix \<Rightarrow> matrix" where
  "discounted am dt k A =
     map (\<lambda>i. if i < k then map (\<lambda>x. x * final_discount am dt i) (A ! i) else A ! i)
       [0..<length A]"

subsection \<open>Runs without early exercise\<close>


subsection \<open>What a row holds\<close>



section \<open>Concrete inputs\<close>

text \<open>
  Four paths and two steps at a zero rate (every discount factor is one), strike 100.
  All four paths are in the money at the first exercise date.
\<close>

definition cx_stock :: Stock where
  "cx_stock = \<lparr>s0 = 50, sigma = 4 / 10, r = 0\<rparr>"

definition cx_option :: Option where
  "cx_option = \<lparr>timeToExpiry = 2, nSteps = 2, strike = 100\<rparr>"

definition cx_am :: AmOption where
  "cx_am = \<lparr>AmOption.stockObj = cx_stock, optionObj = cx_option,
            modelObj = \<lparr>BSModel.stockObj = cx_stock, opnObj = cx_option,
                        numberOfPaths = 4, nSteps = 2\<rparr>\<rparr>"

definition cx_eur :: EurOption where
  "cx_eur = \<lparr>EurOption.stockObj = cx_stock, optionObj = cx_option\<rparr>"

definition cx_paths :: matrix where
  "cx_paths = [[50, 50, 50, 50], [10, 20, 30, 40], [8, 18, 30, 24]]"

definition cx_store0 :: store where
  "cx_store0 = \<lparr>samplePaths = cx_paths,
                payoffMatrix = [[0, 0, 0, 0], [92, 82, 70, 76]],
                exerciseDecisionMatrix = [[0, 0, 0, 0], [1, 1, 1, 1]],
                discountFactors = [], results_dict = []\<rparr>"

definition cx_params :: params where
  "cx_params = \<lparr>coef_const = 115, coef_X = - (13 / 5), coef_X_Squared = 1 / 25\<rparr>"

definition cx_store1 :: store where
  "cx_store1 = \<lparr>samplePaths = cx_paths,
                payoffMatrix = [[0, 80, 0, 0], [92, 0, 70, 76]],
                exerciseDecisionMatrix = [[0, 1, 0, 0], [1, 0, 1, 1]],
                discountFactors = [1], results_dict = [(0, cx_params)]\<rparr>"








text \<open>
  The worked example of the notebook: eight paths, three steps, strike 1.1, rate 0.06,
  \<open>dt = 1\<close>. The columns of the sample paths are the prices at times 0 to 3; \<open>ex_d\<close>,
  \<open>ex_d2\<close> and \<open>ex_d3\<close> are the discount factors over one, two and three periods; the
  other constants are the columns of the two matrices, the regression rows and the
  coefficients at the stages of the run.
\<close>

definition ex_stock :: Stock where
  "ex_stock = \<lparr>s0 = 1, sigma = 4 / 10, r = 6 / 100\<rparr>"

definition ex_option :: Option where
  "ex_option = \<lparr>timeToExpiry = 3, nSteps = 3, strike = 11 / 10\<rparr>"

definition ex_am :: AmOption where
  "ex_am = \<lparr>AmOption.stockObj = ex_stock, optionObj = ex_option,
            modelObj = \<lparr>BSModel.stockObj = ex_stock, opnObj = ex_option,
                        numberOfPaths = 8, nSteps = 3\<rparr>\<rparr>"

definition ex_eur :: EurOption where
  "ex_eur = \<lparr>EurOption.stockObj = ex_stock, optionObj = ex_option\<rparr>"

definition ex_col0 :: vector where
  "ex_col0 = [1, 1, 1, 1, 1, 1, 1, 1]"

definition ex_col1 :: vector where
  "ex_col1 = [109 / 100, 116 / 100, 122 / 100, 93 / 100, 111 / 100, 76 / 100, 92 / 100, 88 / 100]"

definition ex_col2 :: vector where
  "ex_col2 = [108 / 100, 126 / 100, 107 / 100, 97 / 100, 156 / 100, 77 / 100, 84 / 100, 122 / 100]"

definition ex_col3 :: vector where
  "ex_col3 = [134 / 100, 154 / 100, 103 / 100, 92 / 100, 152 / 100, 90 / 100, 101 / 100, 134 / 100]"

definition ex_paths :: matrix where
  "ex_paths = [ex_col0, ex_col1, ex_col2, ex_col3]"

definition ex_d :: real where
  "ex_d = exp (- (3 / 50))"

definition ex_d2 :: real where
  "ex_d2 = exp (- (3 / 25))"

definition ex_d3 :: real where
  "ex_d3 = exp (- (9 / 50))"

definition ex_zeros :: vector where
  "ex_zeros = [0, 0, 0, 0, 0, 0, 0, 0]"

definition ex_pay3 :: vector where
  "ex_pay3 = [0, 0, 7 / 100, 18 / 100, 0, 20 / 100, 9 / 100, 0]"

definition ex_flag3 :: vector where
  "ex_flag3 = [0, 0, 1, 1, 0, 1, 1, 0]"

definition ex_pay2 :: vector where
  "ex_pay2 = [0, 0, 0, 13 / 100, 0, 33 / 100, 26 / 100, 0]"

definition ex_flag2 :: vector where
  "ex_flag2 = [0, 0, 0, 1, 0, 1, 1, 0]"

definition ex_pay3z :: vector where
  "ex_pay3z = [0, 0, 7 / 100, 0, 0, 0, 0, 0]"

definition ex_flag3z :: vector where
  "ex_flag3z = [0, 0, 1, 0, 0, 0, 0, 0]"

definition ex_pay1 :: vector where
  "ex_pay1 = [0, 0, 0, 17 / 100, 0, 34 / 100, 18 / 100, 22 / 100]"

definition ex_flag1 :: vector where
  "ex_flag1 = [0, 0, 0, 1, 0, 1, 1, 1]"

definition ex_store0 :: store where
  "ex_store0 = \<lparr>samplePaths = ex_paths,
     payoffMatrix = [ex_zeros, ex_zeros, ex_pay3],
     exerciseDecisionMatrix = [ex_zeros, ex_zeros, ex_flag3],
     discountFactors = [], results_dict = []\<rparr>"

definition ex_params2 :: params where
  "ex_params2 = \<lparr>coef_const = - (2246419497 / 1977217400) * ex_d,
                 coef_X = 31318080 / 9886087 * ex_d,
                 coef_X_Squared = - (19037850 / 9886087) * ex_d\<rparr>"

definition ex_rows2 :: "regression_row list" where
  "ex_rows2 = [\<lparr>col_Y = 0, col_X = 108 / 100, col_X_Squared = (108 / 100)\<^sup>2\<rparr>,
               \<lparr>col_Y = 7 / 100 * ex_d, col_X = 107 / 100, col_X_Squared = (107 / 100)\<^sup>2\<rparr>,
               \<lparr>col_Y = 18 / 100 * ex_d, col_X = 97 / 100, col_X_Squared = (97 / 100)\<^sup>2\<rparr>,
               \<lparr>col_Y = 20 / 100 * ex_d, col_X = 77 / 100, col_X_Squared = (77 / 100)\<^sup>2\<rparr>,
               \<lparr>col_Y = 9 / 100 * ex_d, col_X = 84 / 100, col_X_Squared = (84 / 100)\<^sup>2\<rparr>]"

definition ex_store1 :: store where
  "ex_store1 = \<lparr>samplePaths = ex_paths,
     payoffMatrix = [ex_zeros, ex_pay2, ex_pay3z],
     exerciseDecisionMatrix = [ex_zeros, ex_flag2, ex_flag3z],
     discountFactors = [ex_d], results_dict = [(1, ex_params2)]\<rparr>"

definition ex_params1 :: params where
  "ex_params1 = \<lparr>coef_const = 266982367 / 123402700 * ex_d,
                 coef_X = - (34964385 / 9872216) * ex_d,
                 coef_X_Squared = 3554825 / 2468054 * ex_d\<rparr>"

definition ex_rows1 :: "regression_row list" where
  "ex_rows1 = [\<lparr>col_Y = 0, col_X = 109 / 100, col_X_Squared = (109 / 100)\<^sup>2\<rparr>,
               \<lparr>col_Y = 13 / 100 * ex_d, col_X = 93 / 100, col_X_Squared = (93 / 100)\<^sup>2\<rparr>,
               \<lparr>col_Y = 33 / 100 * ex_d, col_X = 76 / 100, col_X_Squared = (76 / 100)\<^sup>2\<rparr>,
               \<lparr>col_Y = 26 / 100 * ex_d, col_X = 92 / 100, col_X_Squared = (92 / 100)\<^sup>2\<rparr>,
               \<lparr>col_Y = 0, col_X = 88 / 100, col_X_Squared = (88 / 100)\<^sup>2\<rparr>]"

definition ex_store2 :: store where
  "ex_store2 = \<lparr>samplePaths = ex_paths,
     payoffMatrix = [ex_pay1, ex_zeros, ex_pay3z],
     exerciseDecisionMatrix = [ex_flag1, ex_zeros, ex_flag3z],
     discountFactors = [ex_d, ex_d2], results_dict = [(1, ex_params2), (0, ex_params1)]\<rparr>"

text \<open>
  Two stand-ins for the regression library: one that always raises, and one that returns
  the constant model \<open>c\<close> whatever the data.
\<close>

definition fit_raises :: fitter where
  "fit_raises y X = Inl RegressionError"

definition fit_constant :: "real \<Rightarrow> fitter" where
  "fit_constant c y X = Inr \<lparr>coef_const = c, coef_X = 0, coef_X_Squared = 0\<rparr>"

text \<open>
  Three paths and two steps at a zero rate, strike 100. On \<open>dg_paths\<close> exactly one path is
  in the money at the first date (price 90), and it pays 50 at expiry; on \<open>dz_paths\<close> no
  path is in the money at the first date.
\<close>

definition dg_am :: AmOption where
  "dg_am = \<lparr>AmOption.stockObj = cx_stock, optionObj = cx_option,
            modelObj = \<lparr>BSModel.stockObj = cx_stock, opnObj = cx_option,
                        numberOfPaths = 3, nSteps = 2\<rparr>\<rparr>"

definition dg_paths :: matrix where
  "dg_paths = [[50, 50, 50], [90, 110, 120], [50, 120, 130]]"

definition dz_paths :: matrix where
  "dz_paths = [[50, 50, 50], [110, 120, 130], [50, 120, 130]]"

definition dg_store0 :: store where
  "dg_store0 = \<lparr>samplePaths = dg_paths,
                payoffMatrix = [[0, 0, 0], [50, 0, 0]],
                exerciseDecisionMatrix = [[0, 0, 0], [1, 0, 0]],
                discountFactors = [], results_dict = []\<rparr>"

definition dg_store1 :: store where
  "dg_store1 = \<lparr>samplePaths = dg_paths,
                payoffMatrix = [[0, 0, 0], [50, 0, 0]],
                exerciseDecisionMatrix = [[0, 0, 0], [1, 0, 0]],
                discountFactors = [1],
                results_dict = [(0, \<lparr>coef_const = 50, coef_X = 0, coef_X_Squared = 0\<rparr>)]\<rparr>"

text \<open>
  Sample paths whose shape disagrees with the parameters: \<open>cx_wide\<close> has four columns where
  \<open>cx_am\<close> records two steps, \<open>cx_short\<close> has two rows where \<open>cx_am\<close> records four paths,
  and \<open>bc_paths\<close> has one row where \<open>bc_am\<close> records three paths (and one step).
\<close>

definition cx_wide :: matrix where
  "cx_wide = [[50, 50, 50, 50], [10, 20, 30, 40], [1, 1, 1, 1], [8, 18, 30, 24]]"

definition cx_short :: matrix where
  "cx_short = [[50, 50], [10, 20], [8, 18]]"

definition bc_option :: Option where
  "bc_option = \<lparr>timeToExpiry = 1, nSteps = 1, strike = 100\<rparr>"

definition bc_am :: AmOption where
  "bc_am = \<lparr>AmOption.stockObj = cx_stock, optionObj = bc_option,
            modelObj = \<lparr>BSModel.stockObj = cx_stock, opnObj = bc_option,
                        numberOfPaths = 3, nSteps = 1\<rparr>\<rparr>"

definition bc_paths :: matrix where
  "bc_paths = [[50], [90]]"

section \<open>Lemmas about the model\<close>

lemma ebind_Inr_iff: "ebind m f = Inr y \<longleftrightarrow> (\<exists>x. m = Inr x \<and> f x = Inr y)"
  by (cases m) (simp_all add: ebind_def)

lemma ebind_Inr [simp]: "ebind (Inr x) f = f x"
  by (simp add: ebind_def)

lemma ebind_Inl [simp]: "ebind (Inl e) f = Inl e"
  by (simp add: ebind_def)

lemma lsm_step_samplePaths:
  "lsm_step fit am dt t s = Inr s' \<Longrightarrow> samplePaths s' = samplePaths s"
  by (auto simp: lsm_step_def ebind_Inr_iff Let_def split: prod.splits)

lemma lsm_loop_samplePaths:
  "lsm_loop fit am dt ts s = Inr s' \<Longrightarrow> samplePaths s' = samplePaths s"
  by (induction ts arbitrary: s) (auto simp: ebind_Inr_iff dest: lsm_step_samplePaths)

lemma discount_loop_samplePaths:
  "discount_loop am dt js s = Inr s' \<Longrightarrow> samplePaths s' = samplePaths s"
  by (induction js arbitrary: s) (auto simp: ebind_Inr_iff discount_col_def)

lemma lsm_init_samplePaths:
  "lsm_init am sp = Inr s \<Longrightarrow> samplePaths s = sp"
  by (auto simp: lsm_init_def ebind_Inr_iff Let_def)

lemma has_shape_nth: "has_shape N M A \<Longrightarrow> j < M \<Longrightarrow> length (A ! j) = N"
  by (simp add: has_shape_def list_all_length)

lemma has_shape_length: "has_shape N M A \<Longrightarrow> length A = M"
  by (simp add: has_shape_def)

lemma has_shape_update:
  "has_shape N M A \<Longrightarrow> length v = N \<Longrightarrow> has_shape N M (A[j := v])"
  by (auto simp: has_shape_def list_all_iff dest: subsetD[OF set_update_subset_insert])

lemma has_shape_replicate: "has_shape N M (replicate M (replicate N x))"
  by (simp add: has_shape_def list_all_length)

lemma set_col_InrD:
  assumes "set_col A j v = Inr B" "has_shape N M A"
  shows "j < M \<and> has_shape N M B \<and> length (B ! j) = N
         \<and> drop (Suc j) B = drop (Suc j) A \<and> take j B = take j A
         \<and> (length v = N \<longrightarrow> B ! j = v)"
  using assms
  by (auto simp: set_col_def has_shape_update has_shape_nth has_shape_length
           split: if_splits)

lemma set_col_same:
  "has_shape N M A \<Longrightarrow> j < M \<Longrightarrow> length v = N \<Longrightarrow> set_col A j v = Inr (A[j := v])"
  by (simp add: set_col_def has_shape_nth has_shape_length)

lemma length_foldr_map2:
  "list_all (\<lambda>c. length c = N) A \<Longrightarrow> length (foldr (map2 (+)) A (replicate N (0::real))) = N"
  by (induction A) auto

lemma length_sum_axis1:
  "A \<noteq> [] \<Longrightarrow> list_all (\<lambda>c. length c = N) A \<Longrightarrow> length (sum_axis1 A) = N"
  by (cases A) (auto simp: sum_axis1_def length_foldr_map2 simp del: foldr.simps
        intro!: length_foldr_map2[of N "_ # _", simplified])

lemma has_shape_drop: "has_shape N M A \<Longrightarrow> has_shape N (M - j) (drop j A)"
  by (auto simp: has_shape_def list_all_iff dest: in_set_dropD)

lemma has_shape_times_cols:
  "has_shape N k A \<Longrightarrow> has_shape N k B \<Longrightarrow> length dfs = k \<Longrightarrow> has_shape N k (times_cols A B dfs)"
  by (auto simp: has_shape_def times_cols_def list_all_length)

lemma has_shape_same_shape: "has_shape N k A \<Longrightarrow> has_shape N k B \<Longrightarrow> same_shape A B"
  by (auto simp: has_shape_def same_shape_def list_all_length list_all2_conv_all_nth)

lemma regressionFunction_InrD:
  assumes "regressionFunction fit am A S B dfs = Inr (regFunction, regDF)"
    and "has_shape N k A" "has_shape N k B" "0 < k"
  shows "length dfs = k \<and> S \<noteq> [] \<and> length (S ! 0) = N"
proof -
  from assms(1) have len: "length dfs = length B" and S: "S \<noteq> []"
    and XY: "length (S ! 0) = length (sum_axis1 (times_cols A B dfs))"
    by (auto simp: regressionFunction_def ebind_Inr_iff get_col_def Let_def split: if_splits)
  from len assms(3) have k: "length dfs = k" by (simp add: has_shape_def)
  have "has_shape N k (times_cols A B dfs)"
    using assms(2,3) k by (rule has_shape_times_cols)
  with \<open>0 < k\<close> have "length (sum_axis1 (times_cols A B dfs)) = N"
    by (intro length_sum_axis1) (auto simp: has_shape_def)
  with XY k S show ?thesis by simp
qed

lemma zero_rows_from_shape:
  "has_shape N M A \<Longrightarrow> length condition = N \<Longrightarrow>
   zero_rows_from condition j A
     = Inr (take j A @ map (\<lambda>c. map2 (\<lambda>b x. if b then 0 else x) condition c) (drop j A))"
  by (cases A) (auto simp: zero_rows_from_def has_shape_def)

lemma broadcast2_same: "length a = length b \<Longrightarrow> broadcast2 a b = Inr (zip a b)"
  by (simp add: broadcast2_def)

lemma condition_eq:
  "map (\<lambda>(p, cv). p > cv \<and> p > 0) (zip (payOff am c) (getContinuationValue regFunction c v))
     = exercise_condition am regFunction c"
  by (simp add: payOff_def getContinuationValue_def exercise_condition_def zip_map_map
        zip_same_conv_map Let_def)

lemma lsm_step_InrD:
  assumes step: "lsm_step fit am dt t s = Inr s'"
    and pm: "has_shape N M (payoffMatrix s)"
    and ex: "has_shape N M (exerciseDecisionMatrix s)"
    and t: "Suc t < M"
  shows "\<exists>regFunction regDF.
           Suc t < length (samplePaths s) \<and> length (samplePaths s ! Suc t) = N \<and>
           regressionFunction fit am (drop (Suc t) (payoffMatrix s))
              (drop (Suc t) (samplePaths s)) (drop (Suc t) (exerciseDecisionMatrix s))
              (discountFactors s @ [step_discount am dt t]) = Inr (regFunction, regDF) \<and>
           s' = s\<lparr>payoffMatrix :=
                    decided t (exercise_condition am regFunction (samplePaths s ! Suc t))
                      (payOff am (samplePaths s ! Suc t)) (payoffMatrix s),
                  exerciseDecisionMatrix :=
                    decided t (exercise_condition am regFunction (samplePaths s ! Suc t))
                      (replicate N 1) (exerciseDecisionMatrix s),
                  discountFactors := discountFactors s @ [step_discount am dt t],
                  results_dict := results_dict s @ [(t, regFunction)]\<rparr>"
proof -
  define c where "c = samplePaths s ! Suc t"
  define dfs where "dfs = discountFactors s @ [step_discount am dt t]"
  from step obtain pm1 p1 ex1 regFunction regDF pairs cps pm2 ex2 pm3 ex3 where
    c: "Suc t < length (samplePaths s)"
    and pm1: "set_col (payoffMatrix s) t (payOff am c) = Inr pm1"
    and p1: "get_col pm1 t = Inr p1"
    and ex1: "set_col (exerciseDecisionMatrix s) t (where_positive p1) = Inr ex1"
    and reg: "regressionFunction fit am (drop (Suc t) pm1) (drop (Suc t) (samplePaths s))
                (drop (Suc t) ex1) dfs = Inr (regFunction, regDF)"
    and pairs: "broadcast2 p1 (getContinuationValue regFunction c p1) = Inr pairs"
    and cps: "broadcast2 (map (\<lambda>(p, cv). p > cv \<and> p > 0) pairs) p1 = Inr cps"
    and pm2: "set_col pm1 t (map (\<lambda>(b, p). if b then p else 0) cps) = Inr pm2"
    and ex2: "set_col ex1 t (map (\<lambda>b. if b then 1 else 0) (map (\<lambda>(p, cv). p > cv \<and> p > 0) pairs))
                = Inr ex2"
    and pm3: "zero_rows_from (map (\<lambda>(p, cv). p > cv \<and> p > 0) pairs) (Suc t) pm2 = Inr pm3"
    and ex3: "zero_rows_from (map (\<lambda>(p, cv). p > cv \<and> p > 0) pairs) (Suc t) ex2 = Inr ex3"
    and s': "s' = s\<lparr>payoffMatrix := pm3, exerciseDecisionMatrix := ex3, discountFactors := dfs,
                    results_dict := results_dict s @ [(t, regFunction)]\<rparr>"
    unfolding lsm_step_def c_def dfs_def step_discount_def
    by (auto simp: ebind_Inr_iff get_col_def Let_def split: prod.splits if_splits)
  note A = set_col_InrD[OF pm1 pm]
  note B = set_col_InrD[OF ex1 ex]
  from A have tM: "t < M" and pm1s: "has_shape N M pm1" by simp_all
  from B have ex1s: "has_shape N M ex1" by simp
  have "has_shape N (M - Suc t) (drop (Suc t) pm1)" "has_shape N (M - Suc t) (drop (Suc t) ex1)"
    using pm1s ex1s by (simp_all add: has_shape_drop)
  from regressionFunction_InrD[OF reg this] t
  have lenc: "length c = N" and dfsl: "length dfs = M - Suc t"
    using c by (auto simp: c_def nth_drop)
  have p1eq: "p1 = payOff am c"
    using A p1 lenc tM pm1s by (auto simp: get_col_def payOff_def has_shape_def split: if_splits)
  have lp1: "length p1 = N" using p1eq lenc by (simp add: payOff_def)
  have pairs_eq: "pairs = zip p1 (getContinuationValue regFunction c p1)"
    using pairs lp1 lenc by (simp add: broadcast2_same getContinuationValue_def)
  define condition where "condition = exercise_condition am regFunction c"
  have cond_eq: "map (\<lambda>(p, cv). p > cv \<and> p > 0) pairs = condition"
    unfolding pairs_eq p1eq condition_def by (rule condition_eq)
  have lcond: "length condition = N"
    by (simp add: condition_def exercise_condition_def lenc)
  have cps_eq: "cps = zip condition p1"
    using cps lp1 lcond by (simp add: cond_eq broadcast2_same)
  have pm2_eq: "pm2 = pm1[t := map2 (\<lambda>b x. if b then x else 0) condition p1]"
    using pm2 pm1s tM lp1 lcond by (simp add: cps_eq set_col_same)
  have ex2_eq: "ex2 = ex1[t := map (\<lambda>b. if b then 1 else 0) condition]"
    using ex2 ex1s tM lcond by (simp add: cond_eq set_col_same)
  have pm2s: "has_shape N M pm2"
    unfolding pm2_eq using pm1s lp1 lcond by (intro has_shape_update) simp_all
  have ex2s: "has_shape N M ex2"
    unfolding ex2_eq using ex1s lcond by (intro has_shape_update) simp_all
  have l1: "length pm1 = M" "length ex1 = M"
    using pm1s ex1s by (simp_all add: has_shape_def)
  have "pm3 = take (Suc t) pm2
                @ map (\<lambda>c. map2 (\<lambda>b x. if b then 0 else x) condition c) (drop (Suc t) pm2)"
    using pm3 by (simp add: cond_eq zero_rows_from_shape[OF pm2s lcond])
  then have pm3_eq: "pm3 = decided t condition p1 (payoffMatrix s)"
    using A tM l1 by (simp add: pm2_eq decided_def take_Suc_conv_app_nth)
  have m1: "map (\<lambda>b. if b then 1 else 0) condition
              = map2 (\<lambda>b x. if b then x else 0) condition (replicate N (1::real))"
    using lcond by (auto simp: list_eq_iff_nth_eq)
  have "ex3 = take (Suc t) ex2
                @ map (\<lambda>c. map2 (\<lambda>b x. if b then 0 else x) condition c) (drop (Suc t) ex2)"
    using ex3 by (simp add: cond_eq zero_rows_from_shape[OF ex2s lcond])
  then have ex3_eq: "ex3 = decided t condition (replicate N 1) (exerciseDecisionMatrix s)"
    using B tM l1 by (simp add: ex2_eq decided_def take_Suc_conv_app_nth m1)
  have reg': "regressionFunction fit am (drop (Suc t) (payoffMatrix s))
              (drop (Suc t) (samplePaths s)) (drop (Suc t) (exerciseDecisionMatrix s))
              dfs = Inr (regFunction, regDF)"
    using reg A B by simp
  show ?thesis
    using c lenc reg' s' pm3_eq ex3_eq
    unfolding c_def[symmetric] dfs_def[symmetric] condition_def p1eq
    by blast
qed

lemma filter_le1_iff:
  "length (filter P xs) \<le> 1 \<longleftrightarrow>
     (\<forall>i<length xs. \<forall>j<length xs. P (xs ! i) \<longrightarrow> P (xs ! j) \<longrightarrow> i = j)"
proof (induction xs)
  case Nil
  then show ?case by simp
next
  case (Cons x xs)
  show ?case
  proof (cases "P x")
    case True
    have "length (filter P (x # xs)) \<le> 1 \<longleftrightarrow> (\<forall>y\<in>set xs. \<not> P y)"
      using True by (simp add: filter_empty_conv)
    also have "\<dots> \<longleftrightarrow> (\<forall>i<length (x # xs). \<forall>j<length (x # xs).
                    P ((x # xs) ! i) \<longrightarrow> P ((x # xs) ! j) \<longrightarrow> i = j)"
    proof
      assume a: "\<forall>y\<in>set xs. \<not> P y"
      show "\<forall>i<length (x # xs). \<forall>j<length (x # xs).
                    P ((x # xs) ! i) \<longrightarrow> P ((x # xs) ! j) \<longrightarrow> i = j"
      proof (intro allI impI)
        fix i j assume "i < length (x # xs)" "j < length (x # xs)"
          "P ((x # xs) ! i)" "P ((x # xs) ! j)"
        with a show "i = j"
          by (cases i; cases j) auto
      qed
    next
      assume b: "\<forall>i<length (x # xs). \<forall>j<length (x # xs).
                    P ((x # xs) ! i) \<longrightarrow> P ((x # xs) ! j) \<longrightarrow> i = j"
      show "\<forall>y\<in>set xs. \<not> P y"
      proof
        fix y assume "y \<in> set xs"
        then obtain k where k: "k < length xs" "xs ! k = y"
          by (auto simp: in_set_conv_nth)
        show "\<not> P y"
        proof
          assume "P y"
          with b[rule_format, of 0 "Suc k"] True k show False by simp
        qed
      qed
    qed
    finally show ?thesis .
  next
    case False
    have "length (filter P (x # xs)) \<le> 1 \<longleftrightarrow> length (filter P xs) \<le> 1"
      using False by simp
    also have "\<dots> \<longleftrightarrow> (\<forall>i<length xs. \<forall>j<length xs. P (xs ! i) \<longrightarrow> P (xs ! j) \<longrightarrow> i = j)"
      by (rule Cons.IH)
    also have "\<dots> \<longleftrightarrow> (\<forall>i<length (x # xs). \<forall>j<length (x # xs).
                    P ((x # xs) ! i) \<longrightarrow> P ((x # xs) ! j) \<longrightarrow> i = j)"
    proof
      assume a: "\<forall>i<length xs. \<forall>j<length xs. P (xs ! i) \<longrightarrow> P (xs ! j) \<longrightarrow> i = j"
      show "\<forall>i<length (x # xs). \<forall>j<length (x # xs).
                    P ((x # xs) ! i) \<longrightarrow> P ((x # xs) ! j) \<longrightarrow> i = j"
      proof (intro allI impI)
        fix i j assume "i < length (x # xs)" "j < length (x # xs)"
          "P ((x # xs) ! i)" "P ((x # xs) ! j)"
        with a False show "i = j"
          by (cases i; cases j) auto
      qed
    next
      assume b: "\<forall>i<length (x # xs). \<forall>j<length (x # xs).
                    P ((x # xs) ! i) \<longrightarrow> P ((x # xs) ! j) \<longrightarrow> i = j"
      show "\<forall>i<length xs. \<forall>j<length xs. P (xs ! i) \<longrightarrow> P (xs ! j) \<longrightarrow> i = j"
      proof (intro allI impI)
        fix i j assume "i < length xs" "j < length xs" "P (xs ! i)" "P (xs ! j)"
        with b[rule_format, of "Suc i" "Suc j"] show "i = j" by simp
      qed
    qed
    finally show ?thesis .
  qed
qed

lemma exercise_once_iff:
  assumes "has_shape N M A" "0 < M"
  shows "exercise_once A \<longleftrightarrow> once N M A"
proof -
  from assms obtain c cs where A: "A = c # cs" and c: "length c = N"
    by (cases A) (auto simp: has_shape_def)
  have len: "length A = M" using assms by (simp add: has_shape_def)
  have "exercise_once A \<longleftrightarrow>
          (\<forall>p<N. length (filter (\<lambda>x. x \<noteq> 0) (map (\<lambda>col. col ! p) A)) \<le> 1)"
    unfolding exercise_once_def rows_of_def A
    by (simp add: list_all_length c del: list.map filter.simps)
  also have "\<dots> \<longleftrightarrow> once N M A"
    unfolding once_def filter_le1_iff by (simp add: len)
  finally show ?thesis .
qed

lemma decided_nth:
  assumes "has_shape N M A" "t < M" "length condition = N" "length col = N" "j < M" "p < N"
  shows "decided t condition col A ! j ! p =
           (if j < t then A ! j ! p
            else if j = t then (if condition ! p then col ! p else 0)
            else (if condition ! p then 0 else A ! j ! p))"
proof -
  have len: "length A = M" and cols: "\<And>i. i < M \<Longrightarrow> length (A ! i) = N"
    using assms(1) by (simp_all add: has_shape_def list_all_length)
  consider "j < t" | "j = t" | "t < j" by linarith
  then show ?thesis
  proof cases
    case 1
    then show ?thesis using assms len by (simp add: decided_def nth_append)
  next
    case 2
    then show ?thesis using assms len by (simp add: decided_def nth_append)
  next
    case 3
    then obtain d where d: "j = Suc t + d" by (metis less_iff_Suc_add add_Suc)
    have "decided t condition col A ! j
            = map2 (\<lambda>b x. if b then 0 else x) condition (A ! j) "
      using assms len 3 unfolding d
      by (simp add: decided_def nth_append nth_Cons')
    then show ?thesis using assms 3 cols[OF \<open>j < M\<close>] by simp
  qed
qed

lemma has_shape_decided:
  assumes "has_shape N M A" "t < M" "length condition = N" "length col = N"
  shows "has_shape N M (decided t condition col A)"
  using assms
  by (auto simp: has_shape_def decided_def list_all_iff dest: in_set_takeD in_set_dropD)

lemma lsm_init_InrD:
  assumes "lsm_init am sp = Inr st0"
  defines "N \<equiv> numberOfPaths (modelObj am)" and "M \<equiv> BSModel.nSteps (modelObj am)"
  shows "\<exists>v. 0 < M \<and> sp \<noteq> [] \<and> length v = N
           \<and> (length (last sp) = N \<longrightarrow> v = payOff am (last sp))
           \<and> st0 = \<lparr>samplePaths = sp,
                    payoffMatrix = (replicate M (replicate N 0))[M - 1 := v],
                    exerciseDecisionMatrix = (replicate M (replicate N 0))[M - 1 := where_positive v],
                    discountFactors = [], results_dict = []\<rparr>"
proof -
  from assms(1) obtain pm ex where
    sp: "sp \<noteq> []" and M: "0 < M"
    and pm: "set_col (replicate M (replicate N 0)) (M - 1) (payOff am (last sp)) = Inr pm"
    and ex: "set_col (replicate M (replicate N 0)) (M - 1) (where_positive (last pm)) = Inr ex"
    and st0: "st0 = \<lparr>samplePaths = sp, payoffMatrix = pm, exerciseDecisionMatrix = ex,
                   discountFactors = [], results_dict = []\<rparr>"
    unfolding lsm_init_def N_def M_def
    by (auto simp: ebind_Inr_iff Let_def last_col_def set_last_col_def split: if_splits)
  have "\<exists>v. length v = N \<and> pm = (replicate M (replicate N 0))[M - 1 := v]
           \<and> (length (last sp) = N \<longrightarrow> v = payOff am (last sp))"
  proof (cases "length (payOff am (last sp)) = N")
    case True
    with pm M have "pm = (replicate M (replicate N 0))[M - 1 := payOff am (last sp)]"
      by (auto simp: set_col_def split: if_splits)
    with True show ?thesis by blast
  next
    case False
    with pm M have "pm = (replicate M (replicate N 0))
                          [M - 1 := replicate N (hd (payOff am (last sp)))]"
      by (auto simp: set_col_def split: if_splits)
    moreover have "length (last sp) \<noteq> N" using False by (simp add: payOff_def)
    ultimately show ?thesis by (intro exI[of _ "replicate N (hd (payOff am (last sp)))"]) simp
  qed
  then obtain v where lv: "length v = N"
    and pm_eq: "pm = (replicate M (replicate N 0))[M - 1 := v]"
    and v: "length (last sp) = N \<longrightarrow> v = payOff am (last sp)"
    by blast
  have lastpm: "last pm = v"
    using M by (simp add: pm_eq last_conv_nth)
  have ex_eq: "ex = (replicate M (replicate N 0))[M - 1 := where_positive v]"
    using ex M lv by (simp add: lastpm set_col_def where_positive_def)
  from M sp lv v pm_eq ex_eq st0 show ?thesis by blast
qed

lemma lsm_init_inv:
  assumes "lsm_init am sp = Inr st0"
  shows "lsm_inv (numberOfPaths (modelObj am)) (BSModel.nSteps (modelObj am))
           (BSModel.nSteps (modelObj am) - 1) st0"
proof -
  define N where "N = numberOfPaths (modelObj am)"
  define M where "M = BSModel.nSteps (modelObj am)"
  from lsm_init_InrD[OF assms] obtain v where
    M: "0 < M" and lv: "length v = N"
    and st0: "st0 = \<lparr>samplePaths = sp,
                    payoffMatrix = (replicate M (replicate N 0))[M - 1 := v],
                    exerciseDecisionMatrix = (replicate M (replicate N 0))[M - 1 := where_positive v],
                    discountFactors = [], results_dict = []\<rparr>"
    unfolding N_def M_def by blast
  have ent: "\<And>w j p. j < M \<Longrightarrow> p < N \<Longrightarrow> j \<noteq> M - 1 \<Longrightarrow>
                (replicate M (replicate N (0::real)))[M - 1 := w] ! j ! p = 0"
    by simp
  have "once N M ((replicate M (replicate N 0))[M - 1 := w])" for w
    unfolding once_def
  proof (intro allI impI)
    fix p i j assume "p < N" "i < M" "j < M"
      "(replicate M (replicate N 0))[M - 1 := w] ! i ! p \<noteq> 0"
      "(replicate M (replicate N 0))[M - 1 := w] ! j ! p \<noteq> 0"
    then have "i = M - 1" "j = M - 1"
      using ent[of i p w] ent[of j p w] by blast+
    then show "i = j" by simp
  qed
  moreover have "zero_before N (M - 1) ((replicate M (replicate N 0))[M - 1 := w])" for w
    unfolding zero_before_def using ent by simp
  moreover have "has_shape N M ((replicate M (replicate N 0))[M - 1 := w])"
    if "length w = N" for w
    using that by (intro has_shape_update has_shape_replicate)
  ultimately show ?thesis
    unfolding lsm_inv_def N_def[symmetric] M_def[symmetric] st0
    using lv by (simp add: where_positive_def)
qed

lemma lsm_step_inv:
  assumes step: "lsm_step fit am dt t s = Inr s'"
    and inv: "lsm_inv N M (Suc t) s" and t: "Suc t < M"
  shows "lsm_inv N M t s'"
proof -
  from inv have pm: "has_shape N M (payoffMatrix s)"
    and ex: "has_shape N M (exerciseDecisionMatrix s)"
    and zpm: "zero_before N (Suc t) (payoffMatrix s)"
    and zex: "zero_before N (Suc t) (exerciseDecisionMatrix s)"
    and opm: "once N M (payoffMatrix s)" and oex: "once N M (exerciseDecisionMatrix s)"
    by (simp_all add: lsm_inv_def)
  from lsm_step_InrD[OF step pm ex t] obtain regFunction where
    lenc: "length (samplePaths s ! Suc t) = N"
    and pm': "payoffMatrix s' =
               decided t (exercise_condition am regFunction (samplePaths s ! Suc t))
                 (payOff am (samplePaths s ! Suc t)) (payoffMatrix s)"
    and ex': "exerciseDecisionMatrix s' =
               decided t (exercise_condition am regFunction (samplePaths s ! Suc t))
                 (replicate N 1) (exerciseDecisionMatrix s)"
    by auto
  define cond where "cond = exercise_condition am regFunction (samplePaths s ! Suc t)"
  have lcond: "length cond = N" by (simp add: cond_def exercise_condition_def lenc)
  have tM: "t < M" using t by simp
  have key: "has_shape N M (decided t cond col A) \<and> zero_before N t (decided t cond col A)
             \<and> once N M (decided t cond col A)"
    if A: "has_shape N M A" and z: "zero_before N (Suc t) A" and o: "once N M A"
      and col: "length col = N" for A col
  proof (intro conjI)
    show "has_shape N M (decided t cond col A)"
      using A tM lcond col by (rule has_shape_decided)
    note nth = decided_nth[OF A tM lcond col]
    show "zero_before N t (decided t cond col A)"
      unfolding zero_before_def using z tM by (auto simp: nth zero_before_def)
    show "once N M (decided t cond col A)"
      unfolding once_def
    proof (intro allI impI)
      fix p i j assume p: "p < N" and i: "i < M" and j: "j < M"
        and ni: "decided t cond col A ! i ! p \<noteq> 0" and nj: "decided t cond col A ! j ! p \<noteq> 0"
      have zi: "\<And>k. k < t \<Longrightarrow> A ! k ! p = 0"
        using z p by (simp add: zero_before_def)
      from ni nth[OF i p] zi have i': "t \<le> i" by (cases "i < t") auto
      from nj nth[OF j p] zi have j': "t \<le> j" by (cases "j < t") auto
      show "i = j"
      proof (cases "cond ! p")
        case True
        with ni nj nth[OF i p] nth[OF j p] i' j' show ?thesis
          by (cases "i = t"; cases "j = t") auto
      next
        case False
        with ni nj nth[OF i p] nth[OF j p] i' j'
        have "A ! i ! p \<noteq> 0" "A ! j ! p \<noteq> 0"
          by (cases "i = t"; cases "j = t"; auto)+
        with o p i j show ?thesis unfolding once_def by blast
      qed
    qed
  qed
  show ?thesis
    unfolding lsm_inv_def pm' ex' cond_def[symmetric]
    using key[OF pm zpm opm, of "payOff am (samplePaths s ! Suc t)"]
      key[OF ex zex oex, of "replicate N 1"] lenc
    by (simp add: payOff_def)
qed

lemma lsm_loop_inv:
  assumes "lsm_loop fit am dt (rev [a..<k]) s = Inr s'" "lsm_inv N M k s" "k < M" "a \<le> k"
  shows "lsm_inv N M a s'"
  using assms
proof (induction k arbitrary: s)
  case 0
  then show ?case by simp
next
  case (Suc k)
  show ?case
  proof (cases "a = Suc k")
    case True
    with Suc.prems show ?thesis by simp
  next
    case False
    with Suc.prems have ak: "a \<le> k" by simp
    with Suc.prems(1) obtain s1 where
      s1: "lsm_step fit am dt k s = Inr s1" and rest: "lsm_loop fit am dt (rev [a..<k]) s1 = Inr s'"
      by (auto simp: ebind_Inr_iff)
    have "lsm_inv N M k s1"
      using s1 Suc.prems(2,3) by (rule lsm_step_inv)
    from Suc.IH[OF rest this _ ak] Suc.prems(3) show ?thesis by simp
  qed
qed

lemma take_backward_range:
  "take j (backward_range M) = rev [M - 1 - j..<M - 1]"
  by (simp add: backward_range_def take_rev)

lemma lsm_step_closed:
  assumes pm: "has_shape N M (payoffMatrix s)"
    and ex: "has_shape N M (exerciseDecisionMatrix s)"
    and t: "Suc t < M" and c: "Suc t < length (samplePaths s)"
    and lenc: "length (samplePaths s ! Suc t) = N"
  shows "lsm_step fit am dt t s =
           ebind (regressionFunction fit am (drop (Suc t) (payoffMatrix s))
                    (drop (Suc t) (samplePaths s)) (drop (Suc t) (exerciseDecisionMatrix s))
                    (discountFactors s @ [step_discount am dt t]))
             (\<lambda>(regFunction, regDF). Inr (step_result am dt t s regFunction))"
proof -
  define c where "c = samplePaths s ! Suc t"
  define pm1 where "pm1 = (payoffMatrix s)[t := payOff am c]"
  define ex1 where "ex1 = (exerciseDecisionMatrix s)[t := where_positive (payOff am c)]"
  have tM: "t < M" using t by simp
  have lM: "length (payoffMatrix s) = M" "length (exerciseDecisionMatrix s) = M"
    using pm ex by (simp_all add: has_shape_def)
  have lp: "length (payOff am c) = N" by (simp add: payOff_def c_def lenc)
  have e1: "get_col (samplePaths s) (t + 1) = Inr c"
    using c by (simp add: get_col_def c_def)
  have e2: "set_col (payoffMatrix s) t (payOff am c) = Inr pm1"
    unfolding pm1_def using pm tM lp by (rule set_col_same)
  have e3: "get_col pm1 t = Inr (payOff am c)"
    using tM lM by (simp add: get_col_def pm1_def)
  have e4: "set_col (exerciseDecisionMatrix s) t (where_positive (payOff am c)) = Inr ex1"
    unfolding ex1_def using ex tM lp by (intro set_col_same) (simp_all add: where_positive_def)
  have d1: "drop (t + 1) pm1 = drop (Suc t) (payoffMatrix s)"
    "drop (t + 1) ex1 = drop (Suc t) (exerciseDecisionMatrix s)"
    by (simp_all add: pm1_def ex1_def)
  have pm1s: "has_shape N M pm1"
    unfolding pm1_def using pm lp by (rule has_shape_update)
  have ex1s: "has_shape N M ex1"
    unfolding ex1_def using ex lp by (intro has_shape_update) (simp_all add: where_positive_def)
  have rest: "(let contValue = getContinuationValue regFunction c (payOff am c) in
     ebind (broadcast2 (payOff am c) contValue) (\<lambda>pairs.
     let condition = map (\<lambda>(p, cv). p > cv \<and> p > 0) pairs in
     ebind (broadcast2 condition (payOff am c)) (\<lambda>cps.
     ebind (set_col pm1 t (map (\<lambda>(b, p). if b then p else 0) cps)) (\<lambda>pm2.
     ebind (set_col ex1 t (map (\<lambda>b. if b then 1 else 0) condition)) (\<lambda>ex2.
     ebind (zero_rows_from condition (t + 1) pm2) (\<lambda>pm3.
     ebind (zero_rows_from condition (t + 1) ex2) (\<lambda>ex3.
     Inr (s\<lparr>payoffMatrix := pm3, exerciseDecisionMatrix := ex3,
            discountFactors := discountFactors s @ [step_discount am dt t],
            results_dict := results_dict s @ [(t, regFunction)]\<rparr>))))))))
     = Inr (step_result am dt t s regFunction)" for regFunction
  proof -
    define condition where "condition = exercise_condition am regFunction c"
    have lcond: "length condition = N"
      by (simp add: condition_def exercise_condition_def c_def lenc)
    have b1: "broadcast2 (payOff am c) (getContinuationValue regFunction c (payOff am c))
                = Inr (zip (payOff am c) (getContinuationValue regFunction c (payOff am c)))"
      by (rule broadcast2_same) (simp add: payOff_def getContinuationValue_def)
    have b2: "broadcast2 condition (payOff am c) = Inr (zip condition (payOff am c))"
      by (rule broadcast2_same) (simp add: lcond lp)
    define pm2 where "pm2 = pm1[t := map2 (\<lambda>b x. if b then x else 0) condition (payOff am c)]"
    define ex2 where "ex2 = ex1[t := map (\<lambda>b. if b then 1 else 0) condition]"
    have s1: "set_col pm1 t (map (\<lambda>(b, p). if b then p else 0) (zip condition (payOff am c)))
                = Inr pm2"
      unfolding pm2_def using pm1s tM by (rule set_col_same) (simp add: lcond lp)
    have s2: "set_col ex1 t (map (\<lambda>b. if b then 1 else 0) condition) = Inr ex2"
      unfolding ex2_def using ex1s tM by (rule set_col_same) (simp add: lcond)
    have pm2s: "has_shape N M pm2"
      unfolding pm2_def using pm1s by (rule has_shape_update) (simp add: lcond lp)
    have ex2s: "has_shape N M ex2"
      unfolding ex2_def using ex1s by (rule has_shape_update) (simp add: lcond)
    have m1: "map (\<lambda>b. if b then 1 else 0) condition
                = map2 (\<lambda>b x. if b then x else 0) condition (replicate N (1::real))"
      using lcond by (auto simp: list_eq_iff_nth_eq)
    have z1: "zero_rows_from condition (t + 1) pm2
                = Inr (decided t condition (payOff am c) (payoffMatrix s))"
      unfolding zero_rows_from_shape[OF pm2s lcond] using tM lM
      by (simp add: pm2_def pm1_def decided_def take_Suc_conv_app_nth)
    have z2: "zero_rows_from condition (t + 1) ex2
                = Inr (decided t condition (replicate N 1) (exerciseDecisionMatrix s))"
      unfolding zero_rows_from_shape[OF ex2s lcond] using tM lM
      by (simp add: ex2_def ex1_def decided_def take_Suc_conv_app_nth m1)
    show ?thesis
      unfolding Let_def b1 ebind_Inr condition_eq condition_def[symmetric] b2 s1 s2 z1 z2
      using lenc by (simp add: step_result_def Let_def c_def[symmetric] condition_def)
  qed
  show ?thesis
    unfolding lsm_step_def e1 ebind_Inr e2 e3 e4 Let_def d1 step_discount_def[symmetric]
    using rest[unfolded Let_def]
    by (auto simp: ebind_def split: sum.splits)
qed


subsection \<open>The regression\<close>

lemma times_cols_nth:
  assumes "length A = k" "length B = k" "length dfs = k" "j < k"
  shows "times_cols A B dfs ! j = map2 (\<lambda>x y. x * y * dfs ! j) (A ! j) (B ! j)"
  using assms by (simp add: times_cols_def)

lemma length_times_cols:
  "length A = k \<Longrightarrow> length B = k \<Longrightarrow> length dfs = k \<Longrightarrow> length (times_cols A B dfs) = k"
  by (simp add: times_cols_def)

lemma foldr_map2_nth:
  "list_all (\<lambda>c. length c = N) cols \<Longrightarrow> p < N \<Longrightarrow>
   foldr (map2 (+)) cols (replicate N (0::real)) ! p = (\<Sum>c\<leftarrow>cols. c ! p)"
  by (induction cols) (simp_all add: length_foldr_map2)

lemma sum_axis1_nth:
  assumes "has_shape N k cols" "0 < k" "p < N"
  shows "sum_axis1 cols ! p = (\<Sum>j\<leftarrow>[0..<k]. cols ! j ! p)"
proof -
  from assms obtain c cs where cols: "cols = c # cs" and c: "length c = N"
    by (cases cols) (auto simp: has_shape_def)
  have all: "list_all (\<lambda>c. length c = N) cols" and len: "length cols = k"
    using assms(1) by (simp_all add: has_shape_def)
  have "sum_axis1 cols ! p = foldr (map2 (+)) cols (replicate N 0) ! p"
    by (simp add: sum_axis1_def cols c)
  also have "\<dots> = (\<Sum>c\<leftarrow>cols. c ! p)"
    using all \<open>p < N\<close> by (rule foldr_map2_nth)
  also have "\<dots> = (\<Sum>j\<leftarrow>[0..<k]. cols ! j ! p)"
    unfolding len[symmetric] by (subst (1) map_nth[symmetric, of cols]) (simp add: comp_def del: map_nth)
  finally show ?thesis .
qed

lemma sum_axis1_times_cols:
  assumes A: "has_shape N k A" and B: "has_shape N k B" and dfs: "length dfs = k" and k: "0 < k"
  shows "sum_axis1 (times_cols A B dfs) = map (spec_Y A B dfs) [0..<N]"
proof (rule nth_equalityI)
  have sh: "has_shape N k (times_cols A B dfs)"
    using A B dfs by (rule has_shape_times_cols)
  show l: "length (sum_axis1 (times_cols A B dfs)) = length (map (spec_Y A B dfs) [0..<N])"
    using sh k length_sum_axis1[of "times_cols A B dfs" N] by (auto simp: has_shape_def)
  fix p assume "p < length (sum_axis1 (times_cols A B dfs))"
  then have p: "p < N" using l by simp
  have lA: "length A = k" "length B = k" using A B by (simp_all add: has_shape_def)
  have "sum_axis1 (times_cols A B dfs) ! p = (\<Sum>j\<leftarrow>[0..<k]. times_cols A B dfs ! j ! p)"
    using sh k p by (rule sum_axis1_nth)
  also have "\<dots> = (\<Sum>j\<leftarrow>[0..<k]. A ! j ! p * B ! j ! p * dfs ! j)"
  proof (rule arg_cong[where f = sum_list], rule map_cong[OF refl])
    fix j assume "j \<in> set [0..<k]"
    then have j: "j < k" by simp
    show "times_cols A B dfs ! j ! p = A ! j ! p * B ! j ! p * dfs ! j"
      using p has_shape_nth[OF A j] has_shape_nth[OF B j]
      by (simp add: times_cols_nth[OF lA dfs j])
  qed
  finally show "sum_axis1 (times_cols A B dfs) ! p = map (spec_Y A B dfs) [0..<N] ! p"
    using p by (simp add: spec_Y_def dfs)
qed

lemma regressionFunction_closed:
  assumes A: "has_shape N k A" and B: "has_shape N k B" and dfs: "length dfs = k" and k: "0 < k"
    and S: "S \<noteq> []" and X: "length (S ! 0) = N"
    and dt: "Option.nSteps (AmOption.optionObj am) \<noteq> 0"
  shows "regressionFunction fit am A S B dfs = spec_regression fit am A (S ! 0) B dfs"
proof -
  have Y: "sum_axis1 (times_cols A B dfs) = map (spec_Y A B dfs) [0..<N]"
    using A B dfs k by (rule sum_axis1_times_cols)
  have Xm: "S ! 0 = map (\<lambda>p. S ! 0 ! p) [0..<N]"
    unfolding X[symmetric] by (simp add: map_nth)
  have z: "zip (map (spec_Y A B dfs) [0..<N]) (S ! 0)
             = map (\<lambda>p. (spec_Y A B dfs p, S ! 0 ! p)) [0..<N]"
    by (subst Xm) (simp add: zip_map_map zip_same_conv_map del: upt_Suc)
  have rows: "map (\<lambda>(y, x). \<lparr>col_Y = y, col_X = x, col_X_Squared = x ^ 2\<rparr>)
                (filter (\<lambda>(y, x). x < strike (AmOption.optionObj am))
                   (zip (map (spec_Y A B dfs) [0..<N]) (S ! 0)))
              = spec_rows am A (S ! 0) B dfs"
    unfolding z by (simp add: spec_rows_def in_the_money_def filter_map comp_def X)
  have sh: "same_shape A B" using A B by (rule has_shape_same_shape)
  have lB: "length B = k" using B by (simp add: has_shape_def)
  show ?thesis
    unfolding regressionFunction_def spec_regression_def
    using dt S sh lB dfs
    by (simp add: getDt_def get_col_def Y X Let_def rows del: map_map)
qed








subsection \<open>Finalisation and whole runs\<close>

lemma discount_col_closed:
  assumes "has_shape N M (payoffMatrix s)" "i < M"
  shows "discount_col am dt i s =
           Inr (s\<lparr>payoffMatrix :=
                    (payoffMatrix s)[i := map (\<lambda>x. x * final_discount am dt i) (payoffMatrix s ! i)]\<rparr>)"
  using assms
  by (simp add: discount_col_def get_col_def set_col_def final_discount_def has_shape_def)

lemma discount_loop_append:
  "discount_loop am dt (xs @ ys) s = ebind (discount_loop am dt xs s) (discount_loop am dt ys)"
proof (induction xs arbitrary: s)
  case Nil
  then show ?case by simp
next
  case (Cons x xs)
  then show ?case by (cases "discount_col am dt x s") simp_all
qed

lemma discounted_0: "discounted am dt 0 A = A"
  by (simp add: discounted_def map_nth)

lemma has_shape_discounted: "has_shape N M A \<Longrightarrow> has_shape N M (discounted am dt k A)"
  by (auto simp: has_shape_def discounted_def list_all_length)

lemma discounted_Suc:
  assumes "k < length A"
  shows "(discounted am dt k A)[k := map (\<lambda>x. x * final_discount am dt k) (discounted am dt k A ! k)]
           = discounted am dt (Suc k) A"
proof (rule nth_equalityI)
  show "length ((discounted am dt k A)[k := map (\<lambda>x. x * final_discount am dt k)
                                              (discounted am dt k A ! k)])
          = length (discounted am dt (Suc k) A)"
    by (simp add: discounted_def)
next
  fix i assume "i < length ((discounted am dt k A)[k := map (\<lambda>x. x * final_discount am dt k)
                                              (discounted am dt k A ! k)])"
  then have i: "i < length A" by (simp add: discounted_def)
  show "(discounted am dt k A)[k := map (\<lambda>x. x * final_discount am dt k)
                                              (discounted am dt k A ! k)] ! i
          = discounted am dt (Suc k) A ! i"
  proof (cases "i = k")
    case True
    then show ?thesis using assms by (simp add: discounted_def)
  next
    case False
    then show ?thesis using i by (simp add: discounted_def less_Suc_eq)
  qed
qed

lemma discount_loop_closed:
  assumes "has_shape N M (payoffMatrix s)" "k \<le> M"
  shows "discount_loop am dt [0..<k] s
           = Inr (s\<lparr>payoffMatrix := discounted am dt k (payoffMatrix s)\<rparr>)"
  using assms(2)
proof (induction k)
  case 0
  then show ?case by (simp add: discounted_0)
next
  case (Suc k)
  then have IH: "discount_loop am dt [0..<k] s
                   = Inr (s\<lparr>payoffMatrix := discounted am dt k (payoffMatrix s)\<rparr>)"
    and k: "k < M" by simp_all
  have sh: "has_shape N M (payoffMatrix (s\<lparr>payoffMatrix := discounted am dt k (payoffMatrix s)\<rparr>))"
    using assms(1) by (simp add: has_shape_discounted)
  have len: "k < length (payoffMatrix s)" using assms(1) k by (simp add: has_shape_def)
  show ?case
    by (simp add: discount_loop_append IH discount_col_closed[OF sh k] discounted_Suc[OF len])
qed

lemma sum_all_discounted:
  assumes "has_shape N M A"
  shows "sum_all (discounted am dt M A)
           = (\<Sum>p<N. \<Sum>i<M. A ! i ! p * final_discount am dt i)"
proof -
  have len: "length A = M" and cols: "\<And>i. i < M \<Longrightarrow> length (A ! i) = N"
    using assms by (simp_all add: has_shape_def list_all_length)
  have "sum_all (discounted am dt M A)
          = (\<Sum>i\<leftarrow>[0..<M]. sum_list (map (\<lambda>x. x * final_discount am dt i) (A ! i)))"
    unfolding sum_all_def discounted_def len map_map comp_def
    by (intro arg_cong[where f = sum_list] map_cong) simp_all
  also have "\<dots> = (\<Sum>i<M. sum_list (map (\<lambda>x. x * final_discount am dt i) (A ! i)))"
    by (simp add: sum_list_sum_nth atLeast0LessThan)
  also have "\<dots> = (\<Sum>i<M. \<Sum>p<N. A ! i ! p * final_discount am dt i)"
  proof (rule sum.cong[OF refl])
    fix i assume "i \<in> {..<M}"
    then have "length (A ! i) = N" using cols by simp
    then show "sum_list (map (\<lambda>x. x * final_discount am dt i) (A ! i))
                 = (\<Sum>p<N. A ! i ! p * final_discount am dt i)"
      by (simp add: sum_list_sum_nth atLeast0LessThan)
  qed
  also have "\<dots> = (\<Sum>p<N. \<Sum>i<M. A ! i ! p * final_discount am dt i)"
    by (rule sum.swap)
  finally show ?thesis .
qed

lemma lsm_loop_all_inv:
  assumes "lsm_init am sp = Inr st0"
    and "lsm_loop fit am dt (backward_range (BSModel.nSteps (modelObj am))) st0 = Inr st1"
  shows "lsm_inv (numberOfPaths (modelObj am)) (BSModel.nSteps (modelObj am)) 0 st1"
proof -
  define N where "N = numberOfPaths (modelObj am)"
  define M where "M = BSModel.nSteps (modelObj am)"
  have M: "0 < M" using lsm_init_InrD[OF assms(1)] by (auto simp: M_def)
  have i0: "lsm_inv N M (M - 1) st0"
    unfolding N_def M_def using assms(1) by (rule lsm_init_inv)
  have "lsm_loop fit am dt (rev [0..<M - 1]) st0 = Inr st1"
    using assms(2) by (simp add: M_def backward_range_def)
  from this i0 have "lsm_inv N M 0 st1"
    by (rule lsm_loop_inv) (use M in simp_all)
  then show ?thesis by (simp add: N_def M_def)
qed

lemma priceAmByLSMC_closed:
  assumes init: "lsm_init am sp = Inr st0"
    and loop: "lsm_loop fit am dt (backward_range (BSModel.nSteps (modelObj am))) st0 = Inr st1"
    and steps: "Option.nSteps (AmOption.optionObj am) = BSModel.nSteps (modelObj am)"
  shows "priceAmByLSMC fit am sp dt =
           Inr ((\<Sum>p<numberOfPaths (modelObj am). \<Sum>i<BSModel.nSteps (modelObj am).
                    payoffMatrix st1 ! i ! p * final_discount am dt i)
                  / real (numberOfPaths (modelObj am)),
                discounted am dt (BSModel.nSteps (modelObj am)) (payoffMatrix st1),
                exerciseDecisionMatrix st1, results_dict st1)"
proof -
  define N where "N = numberOfPaths (modelObj am)"
  define M where "M = BSModel.nSteps (modelObj am)"
  have sh: "has_shape N M (payoffMatrix st1)"
    using lsm_loop_all_inv[OF init loop] by (simp add: lsm_inv_def N_def M_def)
  have d: "discount_loop am dt [0..<M] st1
             = Inr (st1\<lparr>payoffMatrix := discounted am dt M (payoffMatrix st1)\<rparr>)"
    using sh by (rule discount_loop_closed) simp
  have run: "lsm_run fit am sp dt
               = Inr (st1\<lparr>payoffMatrix := discounted am dt M (payoffMatrix st1)\<rparr>)"
    unfolding lsm_run_def using init loop d by (simp add: steps M_def)
  show ?thesis
    unfolding priceAmByLSMC_def run M_def[symmetric] N_def[symmetric]
    by (simp add: sum_all_discounted[OF sh])
qed









subsection \<open>Shape errors\<close>





section \<open>Evaluating the concrete inputs\<close>

lemmas eval_defs =
  lsm_init_def lsm_step_def regressionFunction_def getDt_def get_col_def last_col_def
  set_col_def set_last_col_def broadcast2_def where_positive_def zero_rows_from_def
  times_cols_def same_shape_def sum_axis1_def sum_all_def payOff_def
  getContinuationValue_def discount_col_def ols_fit_def det3_def dot_def Let_def

lemmas cx_defs =
  cx_am_def cx_eur_def cx_paths_def cx_option_def cx_stock_def cx_store0_def cx_store1_def
  cx_params_def

lemma cx_init: "lsm_init cx_am cx_paths = Inr cx_store0"
  by (simp add: eval_defs cx_defs eval_nat_numeral)

lemma cx_step: "lsm_step ols_fit cx_am 1 0 cx_store0 = Inr cx_store1"
  by (simp add: eval_defs cx_defs eval_nat_numeral)

lemma cx_range: "backward_range (BSModel.nSteps (modelObj cx_am)) = [0]"
  by (simp add: backward_range_def cx_am_def)

lemma cx_loop: "lsm_loop ols_fit cx_am 1 [0] cx_store0 = Inr cx_store1"
  by (simp add: cx_step)

lemma cx_discount: "discount_loop cx_am 1 [0, 1] cx_store1 = Inr cx_store1"
  by (simp add: eval_defs cx_defs eval_nat_numeral)







subsection \<open>The worked example\<close>

lemmas ex_defs = ex_stock_def ex_option_def ex_am_def ex_eur_def ex_paths_def
  ex_col0_def ex_col1_def ex_col2_def ex_col3_def ex_zeros_def
  ex_pay3_def ex_flag3_def ex_pay2_def ex_flag2_def ex_pay3z_def ex_flag3z_def
  ex_pay1_def ex_flag1_def

lemma ex_init: "lsm_init ex_am ex_paths = Inr ex_store0"
  by (simp add: eval_defs ex_defs ex_store0_def eval_nat_numeral)

lemma ex_ols2:
  "ols_fit (map col_Y ex_rows2) (map (\<lambda>row. (col_X row, col_X_Squared row)) ex_rows2)
     = Inr ex_params2"
  by (simp add: ols_fit_def det3_def dot_def Let_def ex_rows2_def ex_params2_def
        power2_eq_square field_simps)

lemma ex_ols1:
  "ols_fit (map col_Y ex_rows1) (map (\<lambda>row. (col_X row, col_X_Squared row)) ex_rows1)
     = Inr ex_params1"
  by (simp add: ols_fit_def det3_def dot_def Let_def ex_rows1_def ex_params1_def
        power2_eq_square field_simps)

lemma ex_d_bounds: "9 / 10 < ex_d" "ex_d < 1"
proof -
  have "1 + (- (3 / 50)) \<le> exp (- (3 / 50) :: real)" by (rule exp_ge_add_one_self)
  then show "9 / 10 < ex_d" by (simp add: ex_d_def)
  show "ex_d < 1" by (simp add: ex_d_def)
qed

lemma ex_condition2:
  "exercise_condition ex_am ex_params2 ex_col2
     = [False, False, False, True, False, True, True, False]"
  using ex_d_bounds
  by (simp add: exercise_condition_def ex_defs ex_params2_def power2_eq_square)

lemma ex_condition1:
  "exercise_condition ex_am ex_params1 ex_col1
     = [False, False, False, True, False, True, True, True]"
  using ex_d_bounds
  by (simp add: exercise_condition_def ex_defs ex_params1_def power2_eq_square)

lemma ex_discounts:
  "step_discount ex_am 1 1 = ex_d" "step_discount ex_am 1 (Suc 0) = ex_d"
  "step_discount ex_am 1 0 = ex_d2"
  by (simp_all add: step_discount_def ex_defs ex_d_def ex_d2_def)

lemma ex_spec_rows2:
  "spec_rows ex_am [ex_pay3] ex_col2 [ex_flag3] [ex_d] = ex_rows2"
  by (simp add: spec_rows_def in_the_money_def spec_Y_def ex_defs ex_rows2_def eval_nat_numeral)

lemma ex_spec_rows1:
  "spec_rows ex_am [ex_pay2, ex_pay3z] ex_col1 [ex_flag2, ex_flag3z] [ex_d, ex_d2] = ex_rows1"
  by (simp add: spec_rows_def in_the_money_def spec_Y_def ex_defs ex_rows1_def eval_nat_numeral)

lemma ex_shapes:
  "has_shape 8 3 [ex_zeros, ex_zeros, ex_pay3]" "has_shape 8 3 [ex_zeros, ex_zeros, ex_flag3]"
  "has_shape 8 3 [ex_zeros, ex_pay2, ex_pay3z]" "has_shape 8 3 [ex_zeros, ex_flag2, ex_flag3z]"
  "has_shape 8 1 [ex_pay3]" "has_shape 8 1 [ex_flag3]"
  "has_shape 8 2 [ex_pay2, ex_pay3z]" "has_shape 8 2 [ex_flag2, ex_flag3z]"
  by (simp_all add: has_shape_def ex_defs)

lemma ex_lengths: "length ex_col1 = 8" "length ex_col2 = 8" "length ex_col3 = 8"
  by (simp_all add: ex_defs)

lemma ex_payoffs:
  "payOff ex_am ex_col2 = [2 / 100, 0, 3 / 100, 13 / 100, 0, 33 / 100, 26 / 100, 0]"
  "payOff ex_am ex_col1 = [1 / 100, 0, 0, 17 / 100, 0, 34 / 100, 18 / 100, 22 / 100]"
  by (simp_all add: payOff_def ex_defs)

lemma ex_nsteps: "Option.nSteps (AmOption.optionObj ex_am) \<noteq> 0"
  by (simp add: ex_defs)

lemma ex_reg2:
  "regressionFunction ols_fit ex_am [ex_pay3] [ex_col2, ex_col3] [ex_flag3] [ex_d]
     = Inr (ex_params2, ex_rows2)"
proof -
  have "regressionFunction ols_fit ex_am [ex_pay3] [ex_col2, ex_col3] [ex_flag3] [ex_d]
          = spec_regression ols_fit ex_am [ex_pay3] ([ex_col2, ex_col3] ! 0) [ex_flag3] [ex_d]"
    by (rule regressionFunction_closed[OF ex_shapes(5,6) _ _ _ _ ex_nsteps])
       (simp_all add: ex_lengths)
  then show ?thesis
    by (simp add: spec_regression_def ex_spec_rows2 ex_ols2)
qed

lemma ex_reg1:
  "regressionFunction ols_fit ex_am [ex_pay2, ex_pay3z] [ex_col1, ex_col2, ex_col3]
     [ex_flag2, ex_flag3z] [ex_d, ex_d2] = Inr (ex_params1, ex_rows1)"
proof -
  have "regressionFunction ols_fit ex_am [ex_pay2, ex_pay3z] [ex_col1, ex_col2, ex_col3]
          [ex_flag2, ex_flag3z] [ex_d, ex_d2]
          = spec_regression ols_fit ex_am [ex_pay2, ex_pay3z] ([ex_col1, ex_col2, ex_col3] ! 0)
              [ex_flag2, ex_flag3z] [ex_d, ex_d2]"
    by (rule regressionFunction_closed[OF ex_shapes(7,8) _ _ _ _ ex_nsteps])
       (simp_all add: ex_lengths)
  then show ?thesis
    by (simp add: spec_regression_def ex_spec_rows1 ex_ols1)
qed

lemma ex_step_t1: "lsm_step ols_fit ex_am 1 1 ex_store0 = Inr ex_store1"
proof -
  have "lsm_step ols_fit ex_am 1 1 ex_store0 =
           ebind (regressionFunction ols_fit ex_am (drop (Suc 1) (payoffMatrix ex_store0))
                    (drop (Suc 1) (samplePaths ex_store0)) (drop (Suc 1) (exerciseDecisionMatrix ex_store0))
                    (discountFactors ex_store0 @ [step_discount ex_am 1 1]))
             (\<lambda>(regFunction, regDF). Inr (step_result ex_am 1 1 ex_store0 regFunction))"
    by (rule lsm_step_closed[where N = 8 and M = 3])
       (simp_all add: ex_store0_def ex_shapes ex_paths_def ex_lengths)
  also have "\<dots> = Inr (step_result ex_am 1 1 ex_store0 ex_params2)"
    by (simp add: ex_store0_def ex_paths_def ex_discounts ex_reg2)
  also have "step_result ex_am 1 1 ex_store0 ex_params2 = ex_store1"
    by (simp add: step_result_def Let_def ex_store0_def ex_store1_def ex_paths_def ex_condition2
          ex_payoffs ex_lengths ex_discounts decided_def eval_nat_numeral
          ex_zeros_def ex_pay3_def ex_flag3_def ex_pay2_def ex_flag2_def ex_pay3z_def ex_flag3z_def)
  finally show ?thesis .
qed

lemma ex_step_t0: "lsm_step ols_fit ex_am 1 0 ex_store1 = Inr ex_store2"
proof -
  have "lsm_step ols_fit ex_am 1 0 ex_store1 =
           ebind (regressionFunction ols_fit ex_am (drop (Suc 0) (payoffMatrix ex_store1))
                    (drop (Suc 0) (samplePaths ex_store1)) (drop (Suc 0) (exerciseDecisionMatrix ex_store1))
                    (discountFactors ex_store1 @ [step_discount ex_am 1 0]))
             (\<lambda>(regFunction, regDF). Inr (step_result ex_am 1 0 ex_store1 regFunction))"
    by (rule lsm_step_closed[where N = 8 and M = 3])
       (simp_all add: ex_store1_def ex_shapes ex_paths_def ex_lengths)
  also have "\<dots> = Inr (step_result ex_am 1 0 ex_store1 ex_params1)"
    by (simp add: ex_store1_def ex_paths_def ex_discounts ex_reg1)
  also have "step_result ex_am 1 0 ex_store1 ex_params1 = ex_store2"
    by (simp add: step_result_def Let_def ex_store1_def ex_store2_def ex_paths_def ex_condition1
          ex_payoffs ex_lengths ex_discounts decided_def eval_nat_numeral
          ex_zeros_def ex_pay3_def ex_flag3_def ex_pay2_def ex_flag2_def ex_pay3z_def ex_flag3z_def
          ex_pay1_def ex_flag1_def)
  finally show ?thesis .
qed

lemma ex_range: "backward_range (BSModel.nSteps (modelObj ex_am)) = [1, 0]"
  by (simp add: backward_range_def ex_am_def eval_nat_numeral)

lemma ex_loop:
  "lsm_loop ols_fit ex_am 1 (backward_range (BSModel.nSteps (modelObj ex_am))) ex_store0
     = Inr ex_store2"
  using ex_step_t1 ex_step_t0 by (simp add: ex_range)

lemma ex_sizes:
  "numberOfPaths (modelObj ex_am) = 8" "BSModel.nSteps (modelObj ex_am) = 3"
  by (simp_all add: ex_am_def)

lemma ex_final_discounts:
  "final_discount ex_am 1 0 = ex_d" "final_discount ex_am 1 (Suc 0) = ex_d2"
  "final_discount ex_am 1 (Suc (Suc 0)) = ex_d3"
  by (simp_all add: final_discount_def ex_am_def ex_stock_def ex_d_def ex_d2_def ex_d3_def)

lemma ex_price:
  "priceAmByLSMC ols_fit ex_am ex_paths 1 =
     Inr ((91 / 100 * ex_d + 7 / 100 * ex_d3) / 8,
          [map (\<lambda>x. x * ex_d) ex_pay1, map (\<lambda>x. x * ex_d2) ex_zeros,
           map (\<lambda>x. x * ex_d3) ex_pay3z],
          [ex_flag1, ex_zeros, ex_flag3z], [(1, ex_params2), (0, ex_params1)])"
proof -
  have s: "Option.nSteps (AmOption.optionObj ex_am) = BSModel.nSteps (modelObj ex_am)"
    by (simp add: ex_am_def ex_option_def)
  have d: "discounted ex_am 1 (BSModel.nSteps (modelObj ex_am)) (payoffMatrix ex_store2)
             = [map (\<lambda>x. x * ex_d) ex_pay1, map (\<lambda>x. x * ex_d2) ex_zeros,
                map (\<lambda>x. x * ex_d3) ex_pay3z]"
    by (simp add: discounted_def ex_store2_def ex_sizes eval_nat_numeral ex_final_discounts)
  have v: "(\<Sum>p<numberOfPaths (modelObj ex_am). \<Sum>i<BSModel.nSteps (modelObj ex_am).
              payoffMatrix ex_store2 ! i ! p * final_discount ex_am 1 i)
             = 91 / 100 * ex_d + 7 / 100 * ex_d3"
    by (simp add: ex_sizes ex_store2_def eval_nat_numeral ex_final_discounts
          ex_pay1_def ex_zeros_def ex_pay3z_def)
  show ?thesis
    unfolding priceAmByLSMC_closed[OF ex_init ex_loop s] d v
    by (simp add: ex_sizes ex_store2_def)
qed

lemma ex_european:
  "priceByBSMC ex_eur ex_paths ''put'' = Inr (54 / 100 * ex_d3 / 8)"
  by (simp add: priceByBSMC_def last_col_def ex_eur_def ex_paths_def ex_col3_def ex_option_def
        ex_stock_def ex_d3_def)

lemma ex_d_tight: "9417 / 10000 \<le> ex_d" "ex_d \<le> 9418 / 10000"
proof -
  have "(1 - (3 / 50) / real 64) ^ 64 \<le> exp (- (3 / 50) :: real)"
    by (rule exp_ge_one_minus_x_over_n_power_n) simp_all
  moreover have "(9417 / 10000 :: real) \<le> (1 - (3 / 50) / real 64) ^ 64"
    by (simp add: power_divide)
  ultimately show "9417 / 10000 \<le> ex_d" by (simp add: ex_d_def)
  have "(1 + (3 / 50) / real 64) ^ 64 \<le> exp (3 / 50 :: real)"
    by (rule exp_ge_one_plus_x_over_n_power_n) simp_all
  moreover have "(10000 / 9418 :: real) \<le> (1 + (3 / 50) / real 64) ^ 64"
    by (simp add: power_divide)
  ultimately have "(10000 / 9418 :: real) \<le> exp (3 / 50)" by linarith
  then have "inverse (exp (3 / 50 :: real)) \<le> inverse (10000 / 9418)"
    by (intro le_imp_inverse_le) simp_all
  then show "ex_d \<le> 9418 / 10000" by (simp add: ex_d_def exp_minus)
qed

lemma ex_d3_cube: "ex_d3 = ex_d ^ 3"
proof -
  have "exp (of_nat 3 * (- (3 / 50) :: real)) = exp (- (3 / 50)) ^ 3"
    by (rule exp_of_nat_mult)
  then show ?thesis by (simp add: ex_d3_def ex_d_def)
qed

lemma ex_d3_bounds: "(9417 / 10000) ^ 3 \<le> ex_d3" "ex_d3 \<le> (9418 / 10000) ^ 3"
  unfolding ex_d3_cube using ex_d_tight by (auto intro!: power_mono)

subsection \<open>Degenerate and misshapen inputs\<close>


lemmas dg_defs = dg_am_def dg_paths_def dz_paths_def dg_store0_def dg_store1_def cx_stock_def
  cx_option_def fit_raises_def fit_constant_def bc_option_def bc_am_def bc_paths_def
  cx_wide_def cx_short_def

lemma dg_init: "lsm_init dg_am dg_paths = Inr dg_store0"
  by (simp add: eval_defs dg_defs eval_nat_numeral)


section \<open>The claims\<close>

subsection \<open>C1: exercise at most once\<close>

text \<open>
  C1. For every sample-path matrix, after the terminal-column initialisation and after
  each iteration of the backward loop (the first \<open>j\<close> iterations, for every \<open>j\<close>), every
  row of \<open>payoffMatrix\<close> and every row of \<open>exerciseDecisionMatrix\<close> has at most one nonzero
  entry. The statement holds for every regression library.
\<close>

theorem exercise_once_invariant:
  assumes "lsm_init am sp = Inr st0"
    and "lsm_loop fit am dt (take j (backward_range (BSModel.nSteps (modelObj am)))) st0 = Inr st"
  shows "exercise_once (payoffMatrix st) \<and> exercise_once (exerciseDecisionMatrix st)"
proof -
  define N where "N = numberOfPaths (modelObj am)"
  define M where "M = BSModel.nSteps (modelObj am)"
  have M: "0 < M" using lsm_init_InrD[OF assms(1)] by (auto simp: M_def)
  have i0: "lsm_inv N M (M - 1) st0"
    unfolding N_def M_def using assms(1) by (rule lsm_init_inv)
  have "lsm_loop fit am dt (rev [M - 1 - j..<M - 1]) st0 = Inr st"
    using assms(2) by (simp add: M_def take_backward_range)
  from this i0 have "lsm_inv N M (M - 1 - j) st"
    by (rule lsm_loop_inv) (use M in simp_all)
  then show ?thesis
    using M exercise_once_iff[of N M "payoffMatrix st"]
      exercise_once_iff[of N M "exerciseDecisionMatrix st"]
    by (simp add: lsm_inv_def)
qed

theorem exercise_once_invariant_witness:
  "lsm_init cx_am cx_paths = Inr cx_store0
   \<and> lsm_loop ols_fit cx_am 1 (take 1 (backward_range (BSModel.nSteps (modelObj cx_am)))) cx_store0
       = Inr cx_store1
   \<and> exercise_once [[0, 80, 0, 0], [92, 0, 70, 76]]
   \<and> exercise_once [[0, 1, 0, 0], [1, 0, 1, 1]]"
proof -
  have l: "lsm_loop ols_fit cx_am 1
             (take 1 (backward_range (BSModel.nSteps (modelObj cx_am)))) cx_store0 = Inr cx_store1"
    by (simp add: cx_range cx_step)
  from exercise_once_invariant[OF cx_init l] cx_init l show ?thesis
    by (simp add: cx_store1_def)
qed

subsection \<open>C2: the exercise decision\<close>

text \<open>
  C2. One iteration of the loop body at time index \<open>t\<close>, from any state whose two matrices
  have \<open>N\<close> rows and \<open>M\<close> columns: for every path \<open>p\<close> (in the money or not), with \<open>x\<close> the
  path's price in the decision column, the intrinsic payoff \<open>max (strike - x) 0\<close> and the
  continuation value \<open>const + coef_X * x + coef_X_Squared * x\<^sup>2\<close> of the coefficients that
  \<open>regressionFunction\<close> returned: if the intrinsic payoff exceeds the continuation value and
  is positive, entry \<open>(p, t)\<close> of the payoff matrix is the intrinsic payoff, that of the
  exercise matrix is 1 and all later entries of the row are zero in both matrices;
  otherwise both entries \<open>(p, t)\<close> are zero and the later entries of the row are unchanged.
  Since the exercise entry is 1 in the first case and 0 in the second, the path is marked
  exactly when the condition holds.
\<close>

theorem exercise_decision_rule:
  assumes step: "lsm_step fit am dt t s = Inr s'"
    and pm: "has_shape N M (payoffMatrix s)"
    and ex: "has_shape N M (exerciseDecisionMatrix s)"
    and t: "Suc t < M" and p: "p < N"
  shows "\<exists>regFunction regDF.
           regressionFunction fit am (drop (Suc t) (payoffMatrix s))
              (drop (Suc t) (samplePaths s)) (drop (Suc t) (exerciseDecisionMatrix s))
              (discountFactors s @ [step_discount am dt t]) = Inr (regFunction, regDF) \<and>
           (let x = samplePaths s ! Suc t ! p;
                intrinsic = max (strike (AmOption.optionObj am) - x) 0;
                continuation = coef_const regFunction + coef_X regFunction * x
                                 + coef_X_Squared regFunction * x ^ 2
            in if intrinsic > continuation \<and> intrinsic > 0
               then payoffMatrix s' ! t ! p = intrinsic
                    \<and> exerciseDecisionMatrix s' ! t ! p = 1
                    \<and> (\<forall>j. t < j \<and> j < M \<longrightarrow>
                          payoffMatrix s' ! j ! p = 0 \<and> exerciseDecisionMatrix s' ! j ! p = 0)
               else payoffMatrix s' ! t ! p = 0
                    \<and> exerciseDecisionMatrix s' ! t ! p = 0
                    \<and> (\<forall>j. t < j \<and> j < M \<longrightarrow>
                          payoffMatrix s' ! j ! p = payoffMatrix s ! j ! p
                          \<and> exerciseDecisionMatrix s' ! j ! p = exerciseDecisionMatrix s ! j ! p))"
proof -
  from lsm_step_InrD[OF step pm ex t] obtain regFunction regDF where
    lenc: "length (samplePaths s ! Suc t) = N"
    and reg: "regressionFunction fit am (drop (Suc t) (payoffMatrix s))
              (drop (Suc t) (samplePaths s)) (drop (Suc t) (exerciseDecisionMatrix s))
              (discountFactors s @ [step_discount am dt t]) = Inr (regFunction, regDF)"
    and pm': "payoffMatrix s' =
               decided t (exercise_condition am regFunction (samplePaths s ! Suc t))
                 (payOff am (samplePaths s ! Suc t)) (payoffMatrix s)"
    and ex': "exerciseDecisionMatrix s' =
               decided t (exercise_condition am regFunction (samplePaths s ! Suc t))
                 (replicate N 1) (exerciseDecisionMatrix s)"
    by auto
  define cond where "cond = exercise_condition am regFunction (samplePaths s ! Suc t)"
  have lcond: "length cond = N" by (simp add: cond_def exercise_condition_def lenc)
  have tM: "t < M" using t by simp
  have lp: "length (payOff am (samplePaths s ! Suc t)) = N" by (simp add: payOff_def lenc)
  note n1 = decided_nth[OF pm tM lcond lp _ p]
  note n2 = decided_nth[OF ex tM lcond _ _ p, of "replicate N 1", simplified]
  have cp: "cond ! p \<longleftrightarrow>
              (max (strike (AmOption.optionObj am) - samplePaths s ! Suc t ! p) 0
                 > coef_const regFunction + coef_X regFunction * (samplePaths s ! Suc t ! p)
                     + coef_X_Squared regFunction * (samplePaths s ! Suc t ! p) ^ 2
               \<and> max (strike (AmOption.optionObj am) - samplePaths s ! Suc t ! p) 0 > 0)"
    using p lenc by (simp add: cond_def exercise_condition_def)
  have pp: "payOff am (samplePaths s ! Suc t) ! p
              = max (strike (AmOption.optionObj am) - samplePaths s ! Suc t ! p) 0"
    using p lenc by (simp add: payOff_def)
  have body: "(let x = samplePaths s ! Suc t ! p;
                intrinsic = max (strike (AmOption.optionObj am) - x) 0;
                continuation = coef_const regFunction + coef_X regFunction * x
                                 + coef_X_Squared regFunction * x ^ 2
            in if intrinsic > continuation \<and> intrinsic > 0
               then payoffMatrix s' ! t ! p = intrinsic
                    \<and> exerciseDecisionMatrix s' ! t ! p = 1
                    \<and> (\<forall>j. t < j \<and> j < M \<longrightarrow>
                          payoffMatrix s' ! j ! p = 0 \<and> exerciseDecisionMatrix s' ! j ! p = 0)
               else payoffMatrix s' ! t ! p = 0
                    \<and> exerciseDecisionMatrix s' ! t ! p = 0
                    \<and> (\<forall>j. t < j \<and> j < M \<longrightarrow>
                          payoffMatrix s' ! j ! p = payoffMatrix s ! j ! p
                          \<and> exerciseDecisionMatrix s' ! j ! p = exerciseDecisionMatrix s ! j ! p))"
    unfolding Let_def pm' ex' cond_def[symmetric] cp[symmetric]
    using tM p by (cases "cond ! p") (auto simp: n1 n2 pp)
  from reg body show ?thesis by blast
qed

theorem exercise_decision_rule_witness:
  "lsm_step ols_fit cx_am 1 0 cx_store0 = Inr cx_store1
   \<and> has_shape 4 2 (payoffMatrix cx_store0)
   \<and> has_shape 4 2 (exerciseDecisionMatrix cx_store0)
   \<and> (\<exists>regFunction regDF.
         regressionFunction ols_fit cx_am (drop (Suc 0) (payoffMatrix cx_store0))
            (drop (Suc 0) (samplePaths cx_store0)) (drop (Suc 0) (exerciseDecisionMatrix cx_store0))
            (discountFactors cx_store0 @ [step_discount cx_am 1 0]) = Inr (regFunction, regDF) \<and>
         (let x = samplePaths cx_store0 ! Suc 0 ! 1;
              intrinsic = max (strike (AmOption.optionObj cx_am) - x) 0;
              continuation = coef_const regFunction + coef_X regFunction * x
                               + coef_X_Squared regFunction * x ^ 2
          in if intrinsic > continuation \<and> intrinsic > 0
             then payoffMatrix cx_store1 ! 0 ! 1 = intrinsic
                  \<and> exerciseDecisionMatrix cx_store1 ! 0 ! 1 = 1
                  \<and> (\<forall>j. 0 < j \<and> j < 2 \<longrightarrow>
                        payoffMatrix cx_store1 ! j ! 1 = 0
                        \<and> exerciseDecisionMatrix cx_store1 ! j ! 1 = 0)
             else payoffMatrix cx_store1 ! 0 ! 1 = 0
                  \<and> exerciseDecisionMatrix cx_store1 ! 0 ! 1 = 0
                  \<and> (\<forall>j. 0 < j \<and> j < 2 \<longrightarrow>
                        payoffMatrix cx_store1 ! j ! 1 = payoffMatrix cx_store0 ! j ! 1
                        \<and> exerciseDecisionMatrix cx_store1 ! j ! 1
                            = exerciseDecisionMatrix cx_store0 ! j ! 1)))
   \<and> payoffMatrix cx_store1 ! 0 ! 1 = 80 \<and> exerciseDecisionMatrix cx_store1 ! 0 ! 1 = 1"
proof -
  have h1: "has_shape 4 2 (payoffMatrix cx_store0)"
    and h2: "has_shape 4 2 (exerciseDecisionMatrix cx_store0)"
    by (simp_all add: has_shape_def cx_store0_def)
  have h3: "Suc 0 < (2::nat)" and h4: "(1::nat) < 4" by simp_all
  note w = exercise_decision_rule[OF cx_step h1 h2 h3 h4]
  have v: "payoffMatrix cx_store1 ! 0 ! 1 = 80" "exerciseDecisionMatrix cx_store1 ! 0 ! 1 = 1"
    by (simp_all add: cx_store1_def)
  from cx_step h1 h2 w v show ?thesis by blast
qed

subsection \<open>C3: what is regressed on what\<close>



subsection \<open>C4: fewer than three paths in the money\<close>




subsection \<open>C5: the finalisation formula\<close>



subsection \<open>C6: the worked example\<close>

text \<open>
  C6. On the eight paths of the worked example (strike 1.1, rate 0.06, three steps of
  length 1) and with the reference least-squares solver: the initialisation puts the
  terminal payoffs 0, 0, 0.07, 0.18, 0, 0.20, 0.09, 0 in the last column of the payoff
  matrix; the first iteration (the decision at time 2) marks exactly the rows 3, 5 and 6;
  \<open>priceAmByLSMC\<close> returns the price \<open>(0.91 * exp(-0.06) + 0.07 * exp(-0.18)) / 8\<close>, which is
  within 0.00005 of 0.1144; and \<open>priceByBSMC\<close> returns \<open>0.54 * exp(-0.18) / 8\<close> for the put,
  within 0.00005 of 0.0564.
\<close>

theorem worked_example:
  "lsm_init ex_am ex_paths = Inr ex_store0
   \<and> last (payoffMatrix ex_store0) = [0, 0, 7 / 100, 18 / 100, 0, 20 / 100, 9 / 100, 0]
   \<and> lsm_step ols_fit ex_am 1 1 ex_store0 = Inr ex_store1
   \<and> exerciseDecisionMatrix ex_store1 ! 1 = [0, 0, 0, 1, 0, 1, 1, 0]
   \<and> map_sum id fst (priceAmByLSMC ols_fit ex_am ex_paths 1)
       = Inr ((91 / 100 * ex_d + 7 / 100 * ex_d3) / 8)
   \<and> \<bar>(91 / 100 * ex_d + 7 / 100 * ex_d3) / 8 - 1144 / 10000\<bar> < 5 / 100000
   \<and> priceByBSMC ex_eur ex_paths ''put'' = Inr (54 / 100 * ex_d3 / 8)
   \<and> \<bar>54 / 100 * ex_d3 / 8 - 564 / 10000\<bar> < 5 / 100000"
proof -
  have a: "\<bar>(91 / 100 * ex_d + 7 / 100 * ex_d3) / 8 - 1144 / 10000\<bar> < 5 / 100000"
    using ex_d_tight ex_d3_bounds by (simp add: abs_less_iff power3_eq_cube)
  have b: "\<bar>54 / 100 * ex_d3 / 8 - 564 / 10000\<bar> < 5 / 100000"
    using ex_d3_bounds by (simp add: abs_less_iff power3_eq_cube)
  have c: "last (payoffMatrix ex_store0) = [0, 0, 7 / 100, 18 / 100, 0, 20 / 100, 9 / 100, 0]"
    by (simp add: ex_store0_def ex_pay3_def)
  have d: "exerciseDecisionMatrix ex_store1 ! 1 = [0, 0, 0, 1, 0, 1, 1, 0]"
    by (simp add: ex_store1_def ex_flag2_def)
  have e: "map_sum id fst (priceAmByLSMC ols_fit ex_am ex_paths 1)
             = Inr ((91 / 100 * ex_d + 7 / 100 * ex_d3) / 8)"
    by (simp add: ex_price)
  from ex_init c ex_step_t1 d e a ex_european b show ?thesis by blast
qed

subsection \<open>C7: American against European price\<close>




subsection \<open>C8: sample paths of the wrong shape\<close>




subsection \<open>C9: the sample paths are only read\<close>

text \<open>
  C9. The store that \<open>priceAmByLSMC\<close> works on holds the caller's \<open>samplePaths\<close> next to the
  arrays the function creates. After the initialisation, after any number of iterations of
  the backward loop and after any number of iterations of the discounting loop, the
  \<open>samplePaths\<close> component is the array that was passed in. \<open>regressionFunction\<close> and
  \<open>getContinuationValue\<close> build new values from their arguments and have no access to
  the store.
\<close>

theorem samplePaths_read_only:
  assumes "lsm_init am sp = Inr st0"
    and "lsm_loop fit am dt ts st0 = Inr st1"
    and "discount_loop am dt js st1 = Inr st2"
  shows "samplePaths st0 = sp \<and> samplePaths st1 = sp \<and> samplePaths st2 = sp"
  using assms
  by (auto dest!: lsm_init_samplePaths lsm_loop_samplePaths discount_loop_samplePaths)

theorem samplePaths_read_only_witness:
  "lsm_init cx_am cx_paths = Inr cx_store0
   \<and> lsm_loop ols_fit cx_am 1 [0] cx_store0 = Inr cx_store1
   \<and> discount_loop cx_am 1 [0, 1] cx_store1 = Inr cx_store1
   \<and> samplePaths cx_store0 = cx_paths \<and> samplePaths cx_store1 = cx_paths"
  using samplePaths_read_only[OF cx_init cx_loop cx_discount] cx_init cx_loop cx_discount
  by simp

subsection \<open>C10: no early exercise gives the European price\<close>



end
